theory Spec2Isabelle
  imports Main "HOL-Library.AList"
begin

section \<open>Data model of the signaling server (src/webrtc.ts)\<close>

text \<open>
  A \<^verbatim>\<open>WebSocket\<close> object is known to the server by its identity only (the handlers
  compare sockets with \<^verbatim>\<open>===\<close>), so a socket is a number. Its \<^verbatim>\<open>readyState\<close> belongs
  to the transport, not to the server: every function that sends takes a predicate
  \<open>isOpen\<close> that says which sockets are in state \<^verbatim>\<open>WebSocket.OPEN\<close> while the handler runs.
\<close>

type_synonym WebSocket = nat

text \<open>
  The payload \<^verbatim>\<open>data?: any\<close> is a JSON value (numbers restricted to integers).
  \<open>truthy\<close> is JavaScript's truthiness of such a value, as \<^verbatim>\<open>message.data || {}\<close> reads it.
\<close>

datatype json =
    JNull
  | JBool bool
  | JNum int
  | JStr string
  | JArr "json list"
  | JObj "(string \<times> json) list"

fun truthy :: "json \<Rightarrow> bool" where
  "truthy JNull = False"
| "truthy (JBool b) = b"
| "truthy (JNum n) = (n \<noteq> 0)"
| "truthy (JStr s) = (s \<noteq> [])"
| "truthy (JArr xs) = True"
| "truthy (JObj kvs) = True"

text \<open>
  \<^verbatim>\<open>interface WebRTCMessage\<close>, with the field types it declares (\<^verbatim>\<open>roomId\<close> and \<^verbatim>\<open>userId\<close>
  are strings). An optional field is an \<open>option\<close>. The same shape is used for
  the objects the server sends (\<^verbatim>\<open>user-joined\<close>, \<^verbatim>\<open>user-left\<close>, \<^verbatim>\<open>joined-room\<close>, \<^verbatim>\<open>error\<close>
  and the relayed \<^verbatim>\<open>offer\<close>, \<^verbatim>\<open>answer\<close>, \<^verbatim>\<open>ice-candidate\<close>), whose \<^verbatim>\<open>type\<close> is outside the
  inbound union; hence \<open>type\<close> is a string.
\<close>

record WebRTCMessage =
  type :: string
  roomId :: "string option"
  data :: "json option"
  userId :: "string option"

text \<open>\<^verbatim>\<open>interface RoomParticipant\<close>.\<close>

record RoomParticipant =
  userId :: string
  socket :: WebSocket
  metadata :: json

text \<open>
  A JavaScript \<^verbatim>\<open>Map\<close> iterates in insertion order, \<^verbatim>\<open>set\<close> on a present key keeps the
  key's position, and \<^verbatim>\<open>delete\<close> removes the key. It is an association list:
  \<^verbatim>\<open>get\<close> is \<open>map_of\<close>, \<^verbatim>\<open>set\<close> is \<open>AList.update\<close>, \<^verbatim>\<open>delete\<close> is \<open>AList.delete\<close>,
  \<^verbatim>\<open>size\<close> is \<open>length\<close>, \<^verbatim>\<open>keys()\<close> is \<open>map fst\<close> and \<^verbatim>\<open>entries()\<close> is the list itself.
\<close>

type_synonym Room = "(string \<times> RoomParticipant) list"

text \<open>
  \<^verbatim>\<open>class WebRTCSignalingServer\<close>: the field \<^verbatim>\<open>rooms\<close>, and the wire: \<open>sent\<close> lists every
  \<^verbatim>\<open>socket.send(JSON.stringify(message))\<close> the server has made, oldest first.
\<close>

record WebRTCSignalingServer =
  rooms :: "(string \<times> Room) list"
  sent :: "(WebSocket \<times> WebRTCMessage) list"

definition init :: WebRTCSignalingServer where
  "init = \<lparr>rooms = [], sent = []\<rparr>"

section \<open>Sending\<close>

definition sendToUser ::
  "(WebSocket \<Rightarrow> bool) \<Rightarrow> WebSocket \<Rightarrow> WebRTCMessage \<Rightarrow>
   WebRTCSignalingServer \<Rightarrow> WebRTCSignalingServer" where
  "sendToUser isOpen sock message st =
     (if isOpen sock then st\<lparr>sent := sent st @ [(sock, message)]\<rparr> else st)"

definition sendError ::
  "(WebSocket \<Rightarrow> bool) \<Rightarrow> WebSocket \<Rightarrow> string \<Rightarrow>
   WebRTCSignalingServer \<Rightarrow> WebRTCSignalingServer" where
  "sendError isOpen sock error st =
     sendToUser isOpen sock
       \<lparr>type = ''error'', roomId = None,
        data = Some (JObj [(''message'', JStr error)]), userId = None\<rparr> st"

text \<open>The loop of \<^verbatim>\<open>broadcastToRoom\<close> over \<^verbatim>\<open>Array.from(room.entries())\<close>.\<close>

fun broadcast_loop ::
  "(WebSocket \<Rightarrow> bool) \<Rightarrow> WebRTCMessage \<Rightarrow> string list \<Rightarrow> Room \<Rightarrow>
   WebRTCSignalingServer \<Rightarrow> WebRTCSignalingServer" where
  "broadcast_loop isOpen message excludeUserIds [] st = st"
| "broadcast_loop isOpen message excludeUserIds ((uid, participant) # entries) st =
     broadcast_loop isOpen message excludeUserIds entries
       (if uid \<notin> set excludeUserIds \<and> isOpen (socket participant)
        then st\<lparr>sent := sent st @ [(socket participant, message)]\<rparr>
        else st)"

definition broadcastToRoom ::
  "(WebSocket \<Rightarrow> bool) \<Rightarrow> string \<Rightarrow> WebRTCMessage \<Rightarrow> string list \<Rightarrow>
   WebRTCSignalingServer \<Rightarrow> WebRTCSignalingServer" where
  "broadcastToRoom isOpen rid message excludeUserIds st =
     (case map_of (rooms st) rid of
        None \<Rightarrow> st
      | Some room \<Rightarrow> broadcast_loop isOpen message excludeUserIds room st)"

section \<open>Reverse lookup\<close>

text \<open>
  The inner loop shared by \<^verbatim>\<open>getUserIdBySocket\<close> and \<^verbatim>\<open>handleDisconnection\<close>: the key of
  the first entry of a room whose participant holds the socket.
\<close>

fun find_socket :: "WebSocket \<Rightarrow> Room \<Rightarrow> string option" where
  "find_socket sock [] = None"
| "find_socket sock ((uid, participant) # entries) =
     (if socket participant = sock then Some uid else find_socket sock entries)"

fun getUserIdBySocket_loop :: "WebSocket \<Rightarrow> (string \<times> Room) list \<Rightarrow> string" where
  "getUserIdBySocket_loop sock [] = ''''"
| "getUserIdBySocket_loop sock ((rid, room) # rest) =
     (case find_socket sock room of
        Some uid \<Rightarrow> uid
      | None \<Rightarrow> getUserIdBySocket_loop sock rest)"

definition getUserIdBySocket :: "WebSocket \<Rightarrow> WebRTCSignalingServer \<Rightarrow> string" where
  "getUserIdBySocket sock st = getUserIdBySocket_loop sock (rooms st)"

section \<open>Leaving and disconnecting\<close>

text \<open>
  \<^verbatim>\<open>!roomId\<close> holds of \<^verbatim>\<open>undefined\<close> and of the empty string. \<^verbatim>\<open>room.delete(userId)\<close>
  changes the \<^verbatim>\<open>Map\<close> object that the table holds under \<^verbatim>\<open>roomId\<close>, so the table is
  updated at that key before the broadcast reads it.
\<close>

definition removeUserFromRoom ::
  "(WebSocket \<Rightarrow> bool) \<Rightarrow> string option \<Rightarrow> string \<Rightarrow> WebSocket \<Rightarrow>
   WebRTCSignalingServer \<Rightarrow> WebRTCSignalingServer" where
  "removeUserFromRoom isOpen roomId_opt uid sock st =
     (case roomId_opt of
        None \<Rightarrow> st
      | Some rid \<Rightarrow>
          if rid = '''' then st
          else (case map_of (rooms st) rid of
                  None \<Rightarrow> st
                | Some room \<Rightarrow>
                    let room' = AList.delete uid room;
                        st1 = st\<lparr>rooms := AList.update rid room' (rooms st)\<rparr>;
                        st2 = broadcastToRoom isOpen rid
                                \<lparr>type = ''user-left'', roomId = None,
                                 data = Some (JObj [(''participantCount'',
                                                     JNum (int (length room')))]),
                                 userId = Some uid\<rparr>
                                [uid] st1
                    in if length room' = 0
                       then st2\<lparr>rooms := AList.delete rid (rooms st2)\<rparr>
                       else st2))"

text \<open>\<^verbatim>\<open>userId || this.getUserIdBySocket(socket)\<close>: an absent or empty \<^verbatim>\<open>userId\<close> is looked up.\<close>

definition handleLeaveRoom ::
  "(WebSocket \<Rightarrow> bool) \<Rightarrow> WebSocket \<Rightarrow> WebRTCMessage \<Rightarrow>
   WebRTCSignalingServer \<Rightarrow> WebRTCSignalingServer" where
  "handleLeaveRoom isOpen sock message st =
     removeUserFromRoom isOpen (roomId message)
       (case WebRTCMessage.userId message of
          None \<Rightarrow> getUserIdBySocket sock st
        | Some uid \<Rightarrow> if uid = '''' then getUserIdBySocket sock st else uid)
       sock st"

text \<open>
  The outer loop of \<^verbatim>\<open>handleDisconnection\<close> runs over a copy of the table's entries made
  before the first removal. A removal changes, and may delete, only the room object it
  was called for, which is the entry the loop is at; the room objects of the entries
  still to come are the ones copied (lemma \<open>handleDisconnection_snapshot\<close> below: when
  the loop arrives at an entry, the table holds under its id the room that was copied).
  The inner loop stops at the first entry that holds the socket (\<^verbatim>\<open>break\<close>).
\<close>

fun handleDisconnection_loop ::
  "(WebSocket \<Rightarrow> bool) \<Rightarrow> WebSocket \<Rightarrow> (string \<times> Room) list \<Rightarrow>
   WebRTCSignalingServer \<Rightarrow> WebRTCSignalingServer" where
  "handleDisconnection_loop isOpen sock [] st = st"
| "handleDisconnection_loop isOpen sock ((rid, room) # rest) st =
     handleDisconnection_loop isOpen sock rest
       (case find_socket sock room of
          None \<Rightarrow> st
        | Some uid \<Rightarrow> removeUserFromRoom isOpen (Some rid) uid sock st)"

definition handleDisconnection ::
  "(WebSocket \<Rightarrow> bool) \<Rightarrow> WebSocket \<Rightarrow>
   WebRTCSignalingServer \<Rightarrow> WebRTCSignalingServer" where
  "handleDisconnection isOpen sock st = handleDisconnection_loop isOpen sock (rooms st) st"

section \<open>Joining\<close>

definition handleJoinRoom ::
  "(WebSocket \<Rightarrow> bool) \<Rightarrow> WebSocket \<Rightarrow> WebRTCMessage \<Rightarrow>
   WebRTCSignalingServer \<Rightarrow> WebRTCSignalingServer" where
  "handleJoinRoom isOpen sock message st =
     (case (roomId message, WebRTCMessage.userId message) of
        (Some rid, Some uid) \<Rightarrow>
          if rid = '''' \<or> uid = ''''
          then sendError isOpen sock ''Room ID and User ID are required'' st
          else
            let st1 = (if map_of (rooms st) rid = None
                       then st\<lparr>rooms := AList.update rid [] (rooms st)\<rparr>
                       else st)
            in (case map_of (rooms st1) rid of
                  None \<Rightarrow> st1
                | Some room \<Rightarrow>
                    let participant =
                          \<lparr>userId = uid, socket = sock,
                           metadata = (case data message of
                                         None \<Rightarrow> JObj []
                                       | Some d \<Rightarrow> if truthy d then d else JObj [])\<rparr>;
                        room' = AList.update uid participant room;
                        st2 = st1\<lparr>rooms := AList.update rid room' (rooms st1)\<rparr>;
                        st3 = broadcastToRoom isOpen rid
                                \<lparr>type = ''user-joined'', roomId = None,
                                 data = Some (JObj [(''participantCount'',
                                                     JNum (int (length room')))]),
                                 userId = Some uid\<rparr>
                                [uid] st2
                    in sendToUser isOpen sock
                         \<lparr>type = ''joined-room'', roomId = Some rid,
                          data = Some (JObj
                            [(''participantCount'', JNum (int (length room'))),
                             (''participants'',
                              JArr (map JStr (filter (\<lambda>id. id \<noteq> uid) (map fst room'))))]),
                          userId = None\<rparr>
                         st3)
      | _ \<Rightarrow> sendError isOpen sock ''Room ID and User ID are required'' st)"

section \<open>Relaying\<close>

text \<open>
  \<^verbatim>\<open>handleOffer\<close>, \<^verbatim>\<open>handleAnswer\<close> and \<^verbatim>\<open>handleIceCandidate\<close> differ in the \<^verbatim>\<open>type\<close> of the
  relayed object only; \<open>relay\<close> is their common body.
\<close>

definition relay ::
  "string \<Rightarrow> (WebSocket \<Rightarrow> bool) \<Rightarrow> WebSocket \<Rightarrow> WebRTCMessage \<Rightarrow>
   WebRTCSignalingServer \<Rightarrow> WebRTCSignalingServer" where
  "relay ty isOpen sock message st =
     (case roomId message of
        None \<Rightarrow> sendError isOpen sock ''Room ID is required'' st
      | Some rid \<Rightarrow>
          if rid = '''' then sendError isOpen sock ''Room ID is required'' st
          else broadcastToRoom isOpen rid
                 \<lparr>type = ty, roomId = None, data = data message, userId = None\<rparr>
                 [getUserIdBySocket sock st] st)"

definition handleOffer ::
  "(WebSocket \<Rightarrow> bool) \<Rightarrow> WebSocket \<Rightarrow> WebRTCMessage \<Rightarrow>
   WebRTCSignalingServer \<Rightarrow> WebRTCSignalingServer" where
  "handleOffer = relay ''offer''"

definition handleAnswer ::
  "(WebSocket \<Rightarrow> bool) \<Rightarrow> WebSocket \<Rightarrow> WebRTCMessage \<Rightarrow>
   WebRTCSignalingServer \<Rightarrow> WebRTCSignalingServer" where
  "handleAnswer = relay ''answer''"

definition handleIceCandidate ::
  "(WebSocket \<Rightarrow> bool) \<Rightarrow> WebSocket \<Rightarrow> WebRTCMessage \<Rightarrow>
   WebRTCSignalingServer \<Rightarrow> WebRTCSignalingServer" where
  "handleIceCandidate = relay ''ice-candidate''"

section \<open>Dispatch and the life of a connection\<close>

definition handleMessage ::
  "(WebSocket \<Rightarrow> bool) \<Rightarrow> WebSocket \<Rightarrow> WebRTCMessage \<Rightarrow>
   WebRTCSignalingServer \<Rightarrow> WebRTCSignalingServer" where
  "handleMessage isOpen sock message st =
     (if type message = ''join-room'' then handleJoinRoom isOpen sock message st
      else if type message = ''offer'' then handleOffer isOpen sock message st
      else if type message = ''answer'' then handleAnswer isOpen sock message st
      else if type message = ''ice-candidate'' then handleIceCandidate isOpen sock message st
      else if type message = ''leave-room'' then handleLeaveRoom isOpen sock message st
      else sendError isOpen sock (''Unknown message type: '' @ type message) st)"

text \<open>
  What \<^verbatim>\<open>handleConnection\<close> registers on a socket: a frame is parsed and dispatched; a
  frame on which the \<^verbatim>\<open>try\<close> block throws before anything is done (\<open>None\<close>: one that
  \<^verbatim>\<open>JSON.parse\<close> rejects, or the JSON \<^verbatim>\<open>null\<close>, whose \<^verbatim>\<open>type\<close> cannot be read) is answered
  with an error; and the close event runs \<^verbatim>\<open>handleDisconnection\<close>. A parsed frame
  without a \<^verbatim>\<open>type\<close> is the envelope whose \<open>type\<close> is \<^verbatim>\<open>undefined\<close>, as the error text
  prints it. Each event carries the transport states it meets.
\<close>

datatype event =
    Message WebSocket "WebRTCMessage option"
  | Close WebSocket

fun handleEvent ::
  "(WebSocket \<Rightarrow> bool) \<Rightarrow> event \<Rightarrow> WebRTCSignalingServer \<Rightarrow> WebRTCSignalingServer" where
  "handleEvent isOpen (Message sock (Some message)) st = handleMessage isOpen sock message st"
| "handleEvent isOpen (Message sock None) st = sendError isOpen sock ''Invalid message format'' st"
| "handleEvent isOpen (Close sock) st = handleDisconnection isOpen sock st"

fun run ::
  "((WebSocket \<Rightarrow> bool) \<times> event) list \<Rightarrow> WebRTCSignalingServer \<Rightarrow> WebRTCSignalingServer" where
  "run [] st = st"
| "run ((isOpen, ev) # evs) st = run evs (handleEvent isOpen ev st)"

section \<open>The query\<close>

record RoomInfo =
  exists :: bool
  participantCount :: nat
  participants :: "string list"

text \<open>
  \<^verbatim>\<open>getRoomInfo\<close> reads the table and builds a fresh object; the state it leaves is
  returned beside the answer.
\<close>

definition getRoomInfo ::
  "string \<Rightarrow> WebRTCSignalingServer \<Rightarrow> RoomInfo \<times> WebRTCSignalingServer" where
  "getRoomInfo rid st =
     (case map_of (rooms st) rid of
        None \<Rightarrow> (\<lparr>exists = False, participantCount = 0, participants = []\<rparr>, st)
      | Some room \<Rightarrow>
          (\<lparr>exists = True, participantCount = length room, participants = map fst room\<rparr>, st))"

section \<open>Vocabulary of the properties\<close>

text \<open>
  The objects the handlers build, named: the theorems below say which of them goes to
  which socket.
\<close>

definition user_left :: "string \<Rightarrow> nat \<Rightarrow> WebRTCMessage" where
  "user_left uid n =
     \<lparr>type = ''user-left'', roomId = None,
      data = Some (JObj [(''participantCount'', JNum (int n))]), userId = Some uid\<rparr>"

definition user_joined :: "string \<Rightarrow> nat \<Rightarrow> WebRTCMessage" where
  "user_joined uid n =
     \<lparr>type = ''user-joined'', roomId = None,
      data = Some (JObj [(''participantCount'', JNum (int n))]), userId = Some uid\<rparr>"

definition joined_room :: "string \<Rightarrow> nat \<Rightarrow> string list \<Rightarrow> WebRTCMessage" where
  "joined_room rid n ids =
     \<lparr>type = ''joined-room'', roomId = Some rid,
      data = Some (JObj [(''participantCount'', JNum (int n)),
                         (''participants'', JArr (map JStr ids))]),
      userId = None\<rparr>"

definition error_msg :: "string \<Rightarrow> WebRTCMessage" where
  "error_msg e =
     \<lparr>type = ''error'', roomId = None, data = Some (JObj [(''message'', JStr e)]),
      userId = None\<rparr>"

definition relayed :: "string \<Rightarrow> json option \<Rightarrow> WebRTCMessage" where
  "relayed ty d = \<lparr>type = ty, roomId = None, data = d, userId = None\<rparr>"

definition new_participant :: "string \<Rightarrow> WebSocket \<Rightarrow> json option \<Rightarrow> RoomParticipant" where
  "new_participant uid sock d =
     \<lparr>userId = uid, socket = sock,
      metadata = (case d of None \<Rightarrow> JObj [] | Some v \<Rightarrow> if truthy v then v else JObj [])\<rparr>"

text \<open>The sockets of the entries of a room whose transport is open, in the room's order.\<close>

definition open_sockets :: "(WebSocket \<Rightarrow> bool) \<Rightarrow> Room \<Rightarrow> WebSocket list" where
  "open_sockets isOpen room = filter isOpen (map (\<lambda>(u, p). socket p) room)"

text \<open>The entries of a room of the table; none when the table has no such room.\<close>

definition room_of :: "string \<Rightarrow> WebRTCSignalingServer \<Rightarrow> Room" where
  "room_of rid st = (case map_of (rooms st) rid of None \<Rightarrow> [] | Some room \<Rightarrow> room)"

text \<open>
  The records a socket has in the table: each pair of a room id and a user id whose
  participant holds the socket, in the table's order.
\<close>

definition memberships :: "WebSocket \<Rightarrow> WebRTCSignalingServer \<Rightarrow> (string \<times> string) list" where
  "memberships sock st =
     concat (map (\<lambda>(rid, room). map (\<lambda>(u, p). (rid, u)) (filter (\<lambda>(u, p). socket p = sock) room))
                 (rooms st))"

text \<open>
  What every table the server can reach satisfies: the keys of a \<^verbatim>\<open>Map\<close> are distinct,
  no room id and no user id is the empty string, and no room is empty.
\<close>

definition table_ok :: "WebRTCSignalingServer \<Rightarrow> bool" where
  "table_ok st \<longleftrightarrow>
     distinct (map fst (rooms st)) \<and>
     (\<forall>(rid, room) \<in> set (rooms st).
        rid \<noteq> '''' \<and> room \<noteq> [] \<and> distinct (map fst room) \<and>
        (\<forall>(u, p) \<in> set room. u \<noteq> ''''))"

section \<open>Client envelopes and the scenarios of the specification\<close>

definition join_room :: "string \<Rightarrow> string \<Rightarrow> WebRTCMessage" where
  "join_room rid uid = \<lparr>type = ''join-room'', roomId = Some rid, data = None, userId = Some uid\<rparr>"

definition leave_room :: "string \<Rightarrow> string \<Rightarrow> WebRTCMessage" where
  "leave_room rid uid = \<lparr>type = ''leave-room'', roomId = Some rid, data = None, userId = Some uid\<rparr>"

definition offer :: "string \<Rightarrow> json \<Rightarrow> WebRTCMessage" where
  "offer rid d = \<lparr>type = ''offer'', roomId = Some rid, data = Some d, userId = None\<rparr>"

text \<open>
  Scenario A: alice (socket 1) joins the empty room r1. Scenario B: bob (socket 2) joins
  it. Scenario D: bob's transport drops. Scenario E: alice then leaves.
\<close>

definition scenario_A :: WebRTCSignalingServer where
  "scenario_A = run [(\<lambda>s. True, Message 1 (Some (join_room ''r1'' ''alice'')))] init"

definition scenario_B :: WebRTCSignalingServer where
  "scenario_B = run [(\<lambda>s. True, Message 2 (Some (join_room ''r1'' ''bob'')))] scenario_A"

definition scenario_D :: WebRTCSignalingServer where
  "scenario_D = run [(\<lambda>s. s \<noteq> 2, Close 2)] scenario_B"

definition scenario_E :: WebRTCSignalingServer where
  "scenario_E = run [(\<lambda>s. True, Message 1 (Some (leave_room ''r1'' ''alice'')))] scenario_D"

text \<open>
  Three further runs. In scenario B, bob leaves with a \<^verbatim>\<open>leave-room\<close> envelope. One socket
  joins the room r under two user ids. One socket joins two rooms under one user id.
\<close>

definition bob_has_left :: WebRTCSignalingServer where
  "bob_has_left = run [(\<lambda>s. True, Message 2 (Some (leave_room ''r1'' ''bob'')))] scenario_B"

definition two_ids_one_socket :: WebRTCSignalingServer where
  "two_ids_one_socket =
     run [(\<lambda>s. True, Message 1 (Some (join_room ''r'' ''a''))),
          (\<lambda>s. True, Message 1 (Some (join_room ''r'' ''b'')))] init"

definition two_rooms_one_socket :: WebRTCSignalingServer where
  "two_rooms_one_socket =
     run [(\<lambda>s. True, Message 1 (Some (join_room ''r1'' ''alice''))),
          (\<lambda>s. True, Message 1 (Some (join_room ''r2'' ''alice'')))] init"

section \<open>Auxiliary facts\<close>

lemma broadcast_loop_eq:
  "broadcast_loop isOpen m excl room st =
     st\<lparr>sent := sent st @ map (\<lambda>s. (s, m)) (open_sockets isOpen (filter (\<lambda>(u, p). u \<notin> set excl) room))\<rparr>"
  by (induction room arbitrary: st) (auto simp: open_sockets_def)

lemma filter_ne_delete: "filter (\<lambda>(u, p). u \<noteq> uid) room = AList.delete uid room"
  by (auto simp: AList.delete_eq intro: filter_cong)

lemma delete_delete_same: "AList.delete uid (AList.delete uid room) = AList.delete uid room"
  by (simp add: AList.delete_eq)

lemma delete_update_key: "AList.delete uid (AList.update uid p room) = AList.delete uid room"
  by (simp add: AList.delete_update_same)

lemma filter_keys_update:
  "filter (\<lambda>id. id \<noteq> uid) (map fst (AList.update uid p room)) = map fst (AList.delete uid room)"
proof -
  have "filter (\<lambda>id. id \<noteq> uid) (map fst al) = map fst (AList.delete uid al)" for al :: "('a \<times> 'b) list"
    by (induction al) auto
  from this[of "AList.update uid p room"] show ?thesis
    by (simp add: AList.delete_update_same)
qed

lemma set_update_subset: "set (AList.update k v al) \<subseteq> insert (k, v) (set al)"
  by (induction al) auto

lemma set_delete_subset: "set (AList.delete k al) \<subseteq> set al"
  by (auto simp: AList.delete_eq)

lemma broadcastToRoom_Some:
  "map_of (rooms st) rid = Some room \<Longrightarrow>
   broadcastToRoom isOpen rid m [uid] st =
     st\<lparr>sent := sent st @ map (\<lambda>s. (s, m)) (open_sockets isOpen (AList.delete uid room))\<rparr>"
  by (simp add: broadcastToRoom_def broadcast_loop_eq filter_ne_delete)

lemma sendError_eq:
  "sendError isOpen sock e st =
     st\<lparr>sent := sent st @ (if isOpen sock then [(sock, error_msg e)] else [])\<rparr>"
  by (simp add: sendError_def sendToUser_def error_msg_def)

lemma removeUserFromRoom_Some:
  assumes "rid \<noteq> ''''" and "map_of (rooms st) rid = Some room"
  shows "removeUserFromRoom isOpen (Some rid) uid sock st =
     st\<lparr>rooms := (if AList.delete uid room = [] then AList.delete rid (rooms st)
                  else AList.update rid (AList.delete uid room) (rooms st)),
        sent := sent st @ map (\<lambda>s. (s, user_left uid (length (AList.delete uid room))))
                              (open_sockets isOpen (AList.delete uid room))\<rparr>"
  using assms
  by (simp add: removeUserFromRoom_def Let_def broadcastToRoom_Some
      AList.update_conv' user_left_def delete_delete_same AList.delete_update_same)

lemma removeUserFromRoom_noop:
  assumes "r = None \<or> r = Some '''' \<or> (\<exists>rid. r = Some rid \<and> map_of (rooms st) rid = None)"
  shows "removeUserFromRoom isOpen r uid sock st = st"
  using assms by (auto simp: removeUserFromRoom_def)

lemma handleJoinRoom_ok:
  assumes "roomId m = Some rid" "WebRTCMessage.userId m = Some uid" "rid \<noteq> ''''" "uid \<noteq> ''''"
  shows "handleJoinRoom isOpen sock m st =
     st\<lparr>rooms := AList.update rid (AList.update uid (new_participant uid sock (data m)) (room_of rid st)) (rooms st),
        sent := sent st
          @ map (\<lambda>s. (s, user_joined uid (length (AList.update uid (new_participant uid sock (data m)) (room_of rid st)))))
                (open_sockets isOpen (AList.delete uid (room_of rid st)))
          @ (if isOpen sock
             then [(sock, joined_room rid (length (AList.update uid (new_participant uid sock (data m)) (room_of rid st)))
                            (map fst (AList.delete uid (room_of rid st))))]
             else [])\<rparr>"
  using assms
  by (cases "map_of (rooms st) rid")
     (simp_all add: handleJoinRoom_def Let_def room_of_def AList.update_conv' broadcastToRoom_Some
      delete_update_key sendToUser_def user_joined_def joined_room_def new_participant_def
      filter_keys_update)

lemma handleJoinRoom_error:
  assumes "roomId m = None \<or> roomId m = Some '''' \<or> WebRTCMessage.userId m = None \<or> WebRTCMessage.userId m = Some ''''"
  shows "handleJoinRoom isOpen sock m st = sendError isOpen sock ''Room ID and User ID are required'' st"
  using assms by (auto simp: handleJoinRoom_def split: option.splits)

section \<open>The invariant\<close>

lemma table_ok_update:
  assumes "table_ok st" "rid \<noteq> ''''" "room \<noteq> []" "distinct (map fst room)" "\<forall>(u, p) \<in> set room. u \<noteq> ''''"
  shows "table_ok (st\<lparr>rooms := AList.update rid room (rooms st), sent := x\<rparr>)"
  using assms set_update_subset[of rid room "rooms st"]
  unfolding table_ok_def by (simp add: AList.distinct_update) blast

lemma table_ok_delete:
  assumes "table_ok st"
  shows "table_ok (st\<lparr>rooms := AList.delete rid (rooms st), sent := x\<rparr>)"
  using assms set_delete_subset[of rid "rooms st"]
  unfolding table_ok_def by (simp add: AList.distinct_delete) blast

lemma table_ok_room:
  assumes "table_ok st" "map_of (rooms st) rid = Some room"
  shows "room \<noteq> [] \<and> distinct (map fst room) \<and> (\<forall>(u, p) \<in> set room. u \<noteq> '''')"
proof -
  have "(rid, room) \<in> set (rooms st)"
    using assms(2) by (rule map_of_SomeD)
  with assms(1) show ?thesis
    unfolding table_ok_def by blast
qed

lemma table_ok_removeUserFromRoom:
  assumes "table_ok st"
  shows "table_ok (removeUserFromRoom isOpen r uid sock st)"
proof (cases "\<exists>rid room. r = Some rid \<and> rid \<noteq> '''' \<and> map_of (rooms st) rid = Some room")
  case True
  then obtain rid room where h: "r = Some rid" "rid \<noteq> ''''" "map_of (rooms st) rid = Some room"
    by blast
  have d: "distinct (map fst (AList.delete uid room))"
    using table_ok_room[OF assms h(3)] by (simp add: AList.distinct_delete)
  have n: "\<forall>(u, p) \<in> set (AList.delete uid room). u \<noteq> ''''"
    using table_ok_room[OF assms h(3)] set_delete_subset[of uid room] by auto
  show ?thesis
    using h d n assms by (simp add: removeUserFromRoom_Some table_ok_update table_ok_delete)
next
  case False
  then have "removeUserFromRoom isOpen r uid sock st = st"
    by (cases r) (auto simp: removeUserFromRoom_def split: option.splits)
  then show ?thesis using assms by simp
qed

lemma table_ok_sendError: "table_ok (sendError isOpen sock e st) = table_ok st"
  by (simp add: sendError_eq table_ok_def)

lemma table_ok_handleJoinRoom:
  assumes "table_ok st"
  shows "table_ok (handleJoinRoom isOpen sock m st)"
proof (cases "\<exists>rid uid. roomId m = Some rid \<and> WebRTCMessage.userId m = Some uid \<and> rid \<noteq> '''' \<and> uid \<noteq> ''''")
  case True
  then obtain rid uid where h: "roomId m = Some rid" "WebRTCMessage.userId m = Some uid" "rid \<noteq> ''''" "uid \<noteq> ''''"
    by blast
  have r: "distinct (map fst (room_of rid st)) \<and> (\<forall>(u, p) \<in> set (room_of rid st). u \<noteq> '''')"
    using table_ok_room[OF assms] by (cases "map_of (rooms st) rid") (auto simp: room_of_def)
  let ?room' = "AList.update uid (new_participant uid sock (data m)) (room_of rid st)"
  have d: "distinct (map fst ?room')" using r by (simp add: AList.distinct_update)
  have n: "\<forall>(u, p) \<in> set ?room'. u \<noteq> ''''"
    using r h(4) set_update_subset[of uid "new_participant uid sock (data m)" "room_of rid st"] by auto
  show ?thesis
    using h d n assms by (simp add: handleJoinRoom_ok table_ok_update)
next
  case False
  then have "handleJoinRoom isOpen sock m st = sendError isOpen sock ''Room ID and User ID are required'' st"
    by (intro handleJoinRoom_error) (cases "roomId m"; cases "WebRTCMessage.userId m"; auto)
  then show ?thesis using assms by (simp add: table_ok_sendError)
qed

lemma relay_rooms: "rooms (relay ty isOpen sock m st) = rooms st"
  by (auto simp: relay_def sendError_eq broadcastToRoom_def broadcast_loop_eq split: option.splits)

lemma table_ok_relay: "table_ok (relay ty isOpen sock m st) = table_ok st"
  by (simp add: table_ok_def relay_rooms)

lemma table_ok_handleDisconnection_loop:
  "table_ok st \<Longrightarrow> table_ok (handleDisconnection_loop isOpen sock tbl st)"
  by (induction tbl arbitrary: st) (auto simp: table_ok_removeUserFromRoom split: option.splits)

lemma table_ok_handleMessage: "table_ok st \<Longrightarrow> table_ok (handleMessage isOpen sock m st)"
  by (simp add: handleMessage_def table_ok_handleJoinRoom handleOffer_def handleAnswer_def
      handleIceCandidate_def table_ok_relay handleLeaveRoom_def table_ok_removeUserFromRoom
      table_ok_sendError)

lemma table_ok_handleEvent: "table_ok st \<Longrightarrow> table_ok (handleEvent isOpen ev st)"
  by (cases "(isOpen, ev, st)" rule: handleEvent.cases)
     (simp_all add: table_ok_handleMessage table_ok_sendError handleDisconnection_def
       table_ok_handleDisconnection_loop)

lemma table_ok_run: "table_ok st \<Longrightarrow> table_ok (run evs st)"
  by (induction evs arbitrary: st) (auto simp: table_ok_handleEvent)

lemma table_ok_init: "table_ok init"
  by (simp add: table_ok_def init_def)

section \<open>Records of a socket\<close>

lemma find_socket_filter:
  "find_socket s room =
     (case filter (\<lambda>(u, p). socket p = s) room of [] \<Rightarrow> None | (u, p) # xs \<Rightarrow> Some u)"
  by (induction room) auto

lemma getUserIdBySocket_loop_memberships:
  "getUserIdBySocket_loop s tbl =
     (case concat (map (\<lambda>(rid, room). map (\<lambda>(u, p). (rid, u))
                                           (filter (\<lambda>(u, p). socket p = s) room)) tbl) of
        [] \<Rightarrow> '''' | (r, u) # xs \<Rightarrow> u)"
proof (induction tbl)
  case Nil
  then show ?case by simp
next
  case (Cons a tbl)
  obtain rid room where a: "a = (rid, room)" by (cases a)
  show ?case
  proof (cases "filter (\<lambda>(u, p). socket p = s) room")
    case Nil
    with Cons a show ?thesis by (simp add: find_socket_filter)
  next
    case (Cons e es)
    with a show ?thesis by (cases e) (simp add: find_socket_filter)
  qed
qed

lemma getUserIdBySocket_memberships:
  "getUserIdBySocket s st = (case memberships s st of [] \<Rightarrow> '''' | (r, u) # xs \<Rightarrow> u)"
  by (simp add: getUserIdBySocket_def memberships_def getUserIdBySocket_loop_memberships)

lemma in_memberships:
  "(r, u) \<in> set (memberships s st) \<longleftrightarrow>
     (\<exists>room p. (r, room) \<in> set (rooms st) \<and> (u, p) \<in> set room \<and> socket p = s)"
proof
  assume "(r, u) \<in> set (memberships s st)"
  then show "\<exists>room p. (r, room) \<in> set (rooms st) \<and> (u, p) \<in> set room \<and> socket p = s"
    by (auto simp: memberships_def)
next
  assume "\<exists>room p. (r, room) \<in> set (rooms st) \<and> (u, p) \<in> set room \<and> socket p = s"
  then obtain room p where h: "(r, room) \<in> set (rooms st)" "(u, p) \<in> set room" "socket p = s"
    by blast
  from h(2,3) have "(r, u) \<in> set (map (\<lambda>(u, p). (r, u)) (filter (\<lambda>(u, p). socket p = s) room))"
    by force
  with h(1) show "(r, u) \<in> set (memberships s st)"
    unfolding memberships_def by force
qed

lemma handleDisconnection_loop_none:
  assumes "concat (map (\<lambda>(rid, room). map (\<lambda>(u, p). (rid, u))
                                           (filter (\<lambda>(u, p). socket p = s) room)) tbl) = []"
  shows "handleDisconnection_loop isOpen s tbl st = st"
  using assms
proof (induction tbl arbitrary: st)
  case Nil
  then show ?case by simp
next
  case (Cons a tbl)
  obtain rid room where a: "a = (rid, room)" by (cases a)
  from Cons.prems a have "filter (\<lambda>(u, p). socket p = s) room = []" by simp
  then have "find_socket s room = None" by (simp add: find_socket_filter)
  with Cons a show ?case by simp
qed

lemma handleDisconnection_loop_single:
  assumes "concat (map (\<lambda>(rid, room). map (\<lambda>(u, p). (rid, u))
                                           (filter (\<lambda>(u, p). socket p = s) room)) tbl) = [(R, P)]"
  shows "handleDisconnection_loop isOpen s tbl st = removeUserFromRoom isOpen (Some R) P s st"
  using assms
proof (induction tbl arbitrary: st)
  case Nil
  then show ?case by simp
next
  case (Cons a tbl)
  obtain rid room where a: "a = (rid, room)" by (cases a)
  show ?case
  proof (cases "filter (\<lambda>(u, p). socket p = s) room")
    case Nil
    then have "find_socket s room = None" by (simp add: find_socket_filter)
    with Cons a Nil show ?thesis by simp
  next
    case (Cons e es)
    obtain u p where e: "e = (u, p)" by (cases e)
    from Cons.prems a Cons e have eq: "rid = R" "u = P" "es = []"
      and rest: "concat (map (\<lambda>(rid, room). map (\<lambda>(u, p). (rid, u))
                                           (filter (\<lambda>(u, p). socket p = s) room)) tbl) = []"
      by simp_all
    have "find_socket s room = Some P"
      using Cons e eq by (simp add: find_socket_filter)
    with a eq show ?thesis
      by (simp add: handleDisconnection_loop_none[OF rest])
  qed
qed

lemma handleDisconnection_none:
  "memberships s st = [] \<Longrightarrow> handleDisconnection isOpen s st = st"
  by (simp add: handleDisconnection_def memberships_def handleDisconnection_loop_none)

lemma handleDisconnection_single:
  "memberships s st = [(R, P)] \<Longrightarrow>
   handleDisconnection isOpen s st = removeUserFromRoom isOpen (Some R) P s st"
  by (simp add: handleDisconnection_def memberships_def handleDisconnection_loop_single)

lemma open_sockets_cong:
  assumes "\<forall>(u, p) \<in> set room. isOpen' (socket p) = isOpen (socket p)"
  shows "open_sockets isOpen' room = open_sockets isOpen room"
  using assms by (induction room) (auto simp: open_sockets_def)

lemma open_sockets_all:
  assumes "\<forall>(u, p) \<in> set room. isOpen (socket p)"
  shows "open_sockets isOpen room = map (\<lambda>(u, p). socket p) room"
  using assms by (induction room) (auto simp: open_sockets_def)



section \<open>The scenarios, evaluated\<close>

lemmas handler_defs =
  handleMessage_def handleJoinRoom_def handleLeaveRoom_def handleDisconnection_def
  handleOffer_def handleAnswer_def handleIceCandidate_def relay_def
  removeUserFromRoom_def broadcastToRoom_def sendToUser_def sendError_def
  getUserIdBySocket_def join_room_def leave_room_def offer_def Let_def

lemma scenario_A_eq:
  "scenario_A =
     \<lparr>rooms = [(''r1'', [(''alice'', new_participant ''alice'' 1 None)])],
      sent = [(1, joined_room ''r1'' 1 [])]\<rparr>"
  by (simp add: scenario_A_def init_def handler_defs new_participant_def joined_room_def)

lemma scenario_B_eq:
  "scenario_B =
     \<lparr>rooms = [(''r1'', [(''alice'', new_participant ''alice'' 1 None),
                          (''bob'', new_participant ''bob'' 2 None)])],
      sent = [(1, joined_room ''r1'' 1 []), (1, user_joined ''bob'' 2),
              (2, joined_room ''r1'' 2 [''alice''])]\<rparr>"
  by (simp add: scenario_B_def scenario_A_eq handler_defs new_participant_def joined_room_def
      user_joined_def)

lemma scenario_D_eq:
  "scenario_D =
     \<lparr>rooms = [(''r1'', [(''alice'', new_participant ''alice'' 1 None)])],
      sent = [(1, joined_room ''r1'' 1 []), (1, user_joined ''bob'' 2),
              (2, joined_room ''r1'' 2 [''alice'']), (1, user_left ''bob'' 1)]\<rparr>"
  by (simp add: scenario_D_def scenario_B_eq handler_defs new_participant_def user_left_def)

lemma scenario_E_eq:
  "scenario_E =
     \<lparr>rooms = [],
      sent = [(1, joined_room ''r1'' 1 []), (1, user_joined ''bob'' 2),
              (2, joined_room ''r1'' 2 [''alice'']), (1, user_left ''bob'' 1)]\<rparr>"
  by (simp add: scenario_E_def scenario_D_eq handler_defs new_participant_def user_left_def)

lemma table_ok_scenario_A: "table_ok scenario_A"
  unfolding scenario_A_def by (intro table_ok_run table_ok_init)

lemma table_ok_scenario_B: "table_ok scenario_B"
  unfolding scenario_B_def by (intro table_ok_run table_ok_scenario_A)

lemma length_update_delete:
  "distinct (map fst al) \<Longrightarrow> length (AList.update k v al) = Suc (length (AList.delete k al))"
  by (induction al) (auto simp: rev_image_eqI)

section \<open>Further runs, evaluated\<close>

lemma bob_has_left_eq:
  "bob_has_left =
     \<lparr>rooms = [(''r1'', [(''alice'', new_participant ''alice'' 1 None)])],
      sent = [(1, joined_room ''r1'' 1 []), (1, user_joined ''bob'' 2),
              (2, joined_room ''r1'' 2 [''alice'']), (1, user_left ''bob'' 1)]\<rparr>"
  by (simp add: bob_has_left_def scenario_B_eq handler_defs new_participant_def user_left_def)

lemma two_ids_one_socket_eq:
  "two_ids_one_socket =
     \<lparr>rooms = [(''r'', [(''a'', new_participant ''a'' 1 None),
                         (''b'', new_participant ''b'' 1 None)])],
      sent = [(1, joined_room ''r'' 1 []), (1, user_joined ''b'' 2),
              (1, joined_room ''r'' 2 [''a''])]\<rparr>"
  by (simp add: two_ids_one_socket_def init_def handler_defs new_participant_def joined_room_def
      user_joined_def)

lemma two_rooms_one_socket_eq:
  "two_rooms_one_socket =
     \<lparr>rooms = [(''r1'', [(''alice'', new_participant ''alice'' 1 None)]),
               (''r2'', [(''alice'', new_participant ''alice'' 1 None)])],
      sent = [(1, joined_room ''r1'' 1 []), (1, joined_room ''r2'' 1 [])]\<rparr>"
  by (simp add: two_rooms_one_socket_def init_def handler_defs new_participant_def joined_room_def
      user_joined_def)

lemma table_ok_bob_has_left: "table_ok bob_has_left"
  unfolding bob_has_left_def by (intro table_ok_run table_ok_scenario_B)

lemma memberships_scenario_B: "memberships 2 scenario_B = [(''r1'', ''bob'')]"
  by (simp add: scenario_B_eq memberships_def new_participant_def)

lemma memberships_alice_B: "memberships 1 scenario_B = [(''r1'', ''alice'')]"
  by (simp add: scenario_B_eq memberships_def new_participant_def)


section \<open>Keys of a reachable table\<close>

lemma table_ok_rid:
  assumes "table_ok st" "map_of (rooms st) rid = Some room"
  shows "rid \<noteq> ''''"
proof -
  have "(rid, room) \<in> set (rooms st)"
    using assms(2) by (rule map_of_SomeD)
  with assms(1) show ?thesis
    unfolding table_ok_def by blast
qed

lemma table_ok_no_empty_key:
  assumes "table_ok st" "map_of (rooms st) rid = Some room"
  shows "'''' \<notin> fst ` set room"
  using table_ok_room[OF assms] by force

section \<open>A close, seen from one room\<close>

lemma removeUserFromRoom_other_room:
  assumes "rid \<noteq> R"
  shows "map_of (rooms (removeUserFromRoom isOpen (Some rid) uid s st)) R = map_of (rooms st) R"
proof (cases "rid \<noteq> '''' \<and> map_of (rooms st) rid \<noteq> None")
  case True
  then obtain room where "rid \<noteq> ''''" "map_of (rooms st) rid = Some room" by blast
  with assms show ?thesis
    by (simp add: removeUserFromRoom_Some AList.update_conv' AList.delete_conv')
next
  case False
  then have "removeUserFromRoom isOpen (Some rid) uid s st = st"
    by (intro removeUserFromRoom_noop) auto
  then show ?thesis by simp
qed

lemma removeUserFromRoom_sent:
  "\<exists>x. sent (removeUserFromRoom isOpen r uid s st) = sent st @ x"
proof (cases "\<exists>rid room. r = Some rid \<and> rid \<noteq> '''' \<and> map_of (rooms st) rid = Some room")
  case True
  then obtain rid room where "r = Some rid" "rid \<noteq> ''''" "map_of (rooms st) rid = Some room"
    by blast
  then show ?thesis by (simp add: removeUserFromRoom_Some)
next
  case False
  then have "removeUserFromRoom isOpen r uid s st = st"
    by (cases r) (auto simp: removeUserFromRoom_def split: option.splits)
  then show ?thesis by simp
qed

lemma handleDisconnection_loop_other_room:
  assumes "R \<notin> fst ` set tbl"
  shows "map_of (rooms (handleDisconnection_loop isOpen s tbl st)) R = map_of (rooms st) R"
  using assms
proof (induction tbl arbitrary: st)
  case Nil
  then show ?case by simp
next
  case (Cons a tbl)
  obtain rid room where a: "a = (rid, room)" by (cases a)
  with Cons.prems have ne: "rid \<noteq> R" and rest: "R \<notin> fst ` set tbl" by auto
  show ?case
    using a Cons.IH[OF rest] ne
    by (simp add: removeUserFromRoom_other_room split: option.splits)
qed

lemma handleDisconnection_loop_sent:
  "\<exists>x. sent (handleDisconnection_loop isOpen s tbl st) = sent st @ x"
proof (induction tbl arbitrary: st)
  case Nil
  then show ?case by simp
next
  case (Cons a tbl)
  obtain rid room where a: "a = (rid, room)" by (cases a)
  define st1 where "st1 = (case find_socket s room of None \<Rightarrow> st
                           | Some uid \<Rightarrow> removeUserFromRoom isOpen (Some rid) uid s st)"
  have "\<exists>x. sent st1 = sent st @ x"
    unfolding st1_def using removeUserFromRoom_sent by (cases "find_socket s room") auto
  then obtain x where x: "sent st1 = sent st @ x" by blast
  from Cons.IH[of st1] obtain y where
    y: "sent (handleDisconnection_loop isOpen s tbl st1) = sent st1 @ y" by blast
  from a x y show ?case by (simp add: st1_def)
qed

lemma handleDisconnection_loop_append:
  "handleDisconnection_loop isOpen s (xs @ ys) st =
     handleDisconnection_loop isOpen s ys (handleDisconnection_loop isOpen s xs st)"
  by (induction xs arbitrary: st) auto

lemma handleDisconnection_snapshot:
  assumes "distinct (map fst (rooms st))" and "rooms st = before @ (rid, room) # after"
  shows "map_of (rooms (handleDisconnection_loop isOpen s before st)) rid = Some room"
proof -
  from assms have n: "rid \<notin> fst ` set before" by auto
  then have "map_of (rooms st) rid = Some room"
    using assms(2) by (simp add: map_add_Some_iff map_of_eq_None_iff)
  with handleDisconnection_loop_other_room[OF n] show ?thesis by simp
qed

lemma split_table:
  assumes "distinct (map fst tbl)" and "map_of tbl R = Some room"
  shows "\<exists>before after. tbl = before @ (R, room) # after \<and>
           R \<notin> fst ` set before \<and> R \<notin> fst ` set after"
proof -
  have "(R, room) \<in> set tbl"
    using assms(2) by (rule map_of_SomeD)
  then obtain before after where t: "tbl = before @ (R, room) # after"
    by (auto simp: in_set_conv_decomp)
  with assms(1) have "R \<notin> fst ` set before \<and> R \<notin> fst ` set after" by auto
  with t show ?thesis by blast
qed

lemma handleDisconnection_on_room:
  assumes "table_ok st" and "map_of (rooms st) R = Some room"
    and "find_socket s room = Some P"
  shows "map_of (rooms (handleDisconnection isOpen s st)) R =
           (if AList.delete P room = [] then None else Some (AList.delete P room))"
    and "\<exists>pre post. sent (handleDisconnection isOpen s st) =
           sent st @ pre
           @ map (\<lambda>x. (x, user_left P (length (AList.delete P room))))
                 (open_sockets isOpen (AList.delete P room))
           @ post"
proof -
  have R: "R \<noteq> ''''" by (rule table_ok_rid[OF assms(1,2)])
  have "distinct (map fst (rooms st))"
    using assms(1) by (simp add: table_ok_def)
  from split_table[OF this assms(2)] obtain before after where
    t: "rooms st = before @ (R, room) # after"
    and nb: "R \<notin> fst ` set before" and na: "R \<notin> fst ` set after"
    by blast
  define st1 where "st1 = handleDisconnection_loop isOpen s before st"
  define st2 where "st2 = removeUserFromRoom isOpen (Some R) P s st1"
  define st3 where "st3 = handleDisconnection_loop isOpen s after st2"
  have all: "handleDisconnection isOpen s st = st3"
    using assms(3)
    by (simp add: handleDisconnection_def t handleDisconnection_loop_append st1_def st2_def st3_def)
  have r1: "map_of (rooms st1) R = Some room"
    unfolding st1_def using handleDisconnection_loop_other_room[OF nb] assms(2) by simp
  obtain pre where s1: "sent st1 = sent st @ pre"
    unfolding st1_def using handleDisconnection_loop_sent by blast
  have st2_eq: "st2 = st1\<lparr>rooms := (if AList.delete P room = [] then AList.delete R (rooms st1)
                                    else AList.update R (AList.delete P room) (rooms st1)),
                        sent := sent st1 @ map (\<lambda>x. (x, user_left P (length (AList.delete P room))))
                                              (open_sockets isOpen (AList.delete P room))\<rparr>"
    unfolding st2_def by (rule removeUserFromRoom_Some[OF R r1])
  have r2: "map_of (rooms st2) R =
              (if AList.delete P room = [] then None else Some (AList.delete P room))"
    by (simp add: st2_eq AList.delete_conv' AList.update_conv')
  have s2: "sent st2 = sent st1 @ map (\<lambda>x. (x, user_left P (length (AList.delete P room))))
                                      (open_sockets isOpen (AList.delete P room))"
    by (simp add: st2_eq)
  have r3: "map_of (rooms st3) R = map_of (rooms st2) R"
    unfolding st3_def by (rule handleDisconnection_loop_other_room[OF na])
  obtain post where s3: "sent st3 = sent st2 @ post"
    unfolding st3_def using handleDisconnection_loop_sent by blast
  show "map_of (rooms (handleDisconnection isOpen s st)) R =
           (if AList.delete P room = [] then None else Some (AList.delete P room))"
    using all r3 r2 by simp
  have "sent (handleDisconnection isOpen s st) =
           sent st @ pre
           @ map (\<lambda>x. (x, user_left P (length (AList.delete P room))))
                 (open_sockets isOpen (AList.delete P room))
           @ post"
    using all s1 s2 s3 by simp
  then show "\<exists>pre post. sent (handleDisconnection isOpen s st) =
           sent st @ pre
           @ map (\<lambda>x. (x, user_left P (length (AList.delete P room))))
                 (open_sockets isOpen (AList.delete P room))
           @ post"
    by blast
qed

lemma find_socket_None:
  "find_socket s room = None \<longleftrightarrow> (\<forall>(u, p) \<in> set room. socket p \<noteq> s)"
  by (induction room) (auto split: if_splits)

lemma find_socket_Some_key:
  "find_socket s room = Some P \<Longrightarrow> \<exists>p. (P, p) \<in> set room \<and> socket p = s"
  by (induction room) (auto split: if_splits)

section \<open>Overwriting an entry\<close>

lemma set_update_distinct:
  "distinct (map fst al) \<Longrightarrow>
   set (AList.update k v al) = insert (k, v) {x \<in> set al. fst x \<noteq> k}"
  by (induction al) (auto simp: rev_image_eqI)

lemma length_update_present:
  "map_of al k = Some v' \<Longrightarrow> length (AList.update k v al) = length al"
  by (induction al) (auto split: if_splits)

lemma keys_update_present:
  "map_of al k = Some v' \<Longrightarrow> map fst (AList.update k v al) = map fst al"
  by (induction al) (auto split: if_splits)

lemma distinct_map_of_unique:
  assumes "distinct (map fst al)" and "(k, v) \<in> set al" and "map_of al k = Some v'"
  shows "v = v'"
  using assms by (simp add: map_of_eq_Some_iff)

lemma memberships_after_overwrite:
  assumes "table_ok st" and "map_of (rooms st) rid = Some room"
    and "socket newp \<noteq> s"
  shows "set (memberships s
            (st\<lparr>rooms := AList.update rid (AList.update uid newp room) (rooms st), sent := x\<rparr>)) =
         set (memberships s st) - {(rid, uid)}"
proof -
  have dt: "distinct (map fst (rooms st))"
    using assms(1) by (simp add: table_ok_def)
  have dr: "distinct (map fst room)"
    using table_ok_room[OF assms(1,2)] by blast
  have in_tbl: "(rid, room) \<in> set (rooms st)"
    using assms(2) by (rule map_of_SomeD)
  have only: "room' = room" if "(rid, room') \<in> set (rooms st)" for room'
    using distinct_map_of_unique[OF dt that assms(2)] .
  let ?room' = "AList.update uid newp room"
  let ?st' = "st\<lparr>rooms := AList.update rid ?room' (rooms st), sent := x\<rparr>"
  have tbl': "set (rooms ?st') = insert (rid, ?room') {e \<in> set (rooms st). fst e \<noteq> rid}"
    using dt by (simp add: set_update_distinct)
  have room': "set ?room' = insert (uid, newp) {e \<in> set room. fst e \<noteq> uid}"
    using dr by (simp add: set_update_distinct)
  show ?thesis
  proof (intro set_eqI iffI)
    fix e assume e: "e \<in> set (memberships s ?st')"
    obtain r u where ru: "e = (r, u)" by (cases e)
    from e ru have "(r, u) \<in> set (memberships s ?st')" by simp
    then obtain rm p where h: "(r, rm) \<in> set (rooms ?st')" "(u, p) \<in> set rm" "socket p = s"
      unfolding in_memberships by blast
    show "e \<in> set (memberships s st) - {(rid, uid)}"
    proof (cases "r = rid")
      case True
      with h(1) tbl' have "rm = ?room'" by auto
      with h(2) room' have "(u, p) = (uid, newp) \<or> ((u, p) \<in> set room \<and> u \<noteq> uid)" by auto
      with h(3) assms(3) have "(u, p) \<in> set room" "u \<noteq> uid" by auto
      with in_tbl h(3) True have "(r, u) \<in> set (memberships s st)" "(r, u) \<noteq> (rid, uid)"
        unfolding in_memberships by blast+
      with ru show ?thesis by simp
    next
      case False
      with h(1) tbl' have "(r, rm) \<in> set (rooms st)" by auto
      with h(2,3) False have "(r, u) \<in> set (memberships s st)" "(r, u) \<noteq> (rid, uid)"
        unfolding in_memberships by blast+
      with ru show ?thesis by simp
    qed
  next
    fix e assume e: "e \<in> set (memberships s st) - {(rid, uid)}"
    obtain r u where ru: "e = (r, u)" by (cases e)
    from e ru have "(r, u) \<in> set (memberships s st)" by simp
    then obtain rm p where h: "(r, rm) \<in> set (rooms st)" "(u, p) \<in> set rm" "socket p = s"
      unfolding in_memberships by blast
    show "e \<in> set (memberships s ?st')"
    proof (cases "r = rid")
      case True
      with h(1) only have "rm = room" by blast
      moreover from e ru True have "u \<noteq> uid" by blast
      ultimately have "(u, p) \<in> set ?room'"
        using h(2) room' by auto
      moreover have "(rid, ?room') \<in> set (rooms ?st')"
        using tbl' by blast
      ultimately have "(r, u) \<in> set (memberships s ?st')"
        using h(3) True unfolding in_memberships by blast
      with ru show ?thesis by simp
    next
      case False
      with h(1) tbl' have "(r, rm) \<in> set (rooms ?st')" by auto
      with h(2,3) have "(r, u) \<in> set (memberships s ?st')"
        unfolding in_memberships by blast
      with ru show ?thesis by simp
    qed
  qed
qed

section \<open>Who is left out of a broadcast\<close>





section \<open>The room query\<close>

text \<open>
  Claim C9. For every room id, \<^verbatim>\<open>getRoomInfo\<close> answers
  \<^verbatim>\<open>{exists: false, participantCount: 0, participants: []}\<close> when the table has no such
  room, and \<^verbatim>\<open>{exists: true, participantCount: size, participants: keys}\<close> for the room the
  table holds; the server state after the query is the state before it.
\<close>

theorem getRoomInfo_answer:
  "(map_of (rooms st) rid = None \<longrightarrow>
      getRoomInfo rid st = (\<lparr>exists = False, participantCount = 0, participants = []\<rparr>, st)) \<and>
   (\<forall>room. map_of (rooms st) rid = Some room \<longrightarrow>
      getRoomInfo rid st =
        (\<lparr>exists = True, participantCount = length room, participants = map fst room\<rparr>, st))"
  by (simp add: getRoomInfo_def)

text \<open>Scenario E: after alice has left, r1 is unknown; in scenario B it has two members.\<close>

theorem getRoomInfo_answer_witness:
  "map_of (rooms scenario_E) ''r1'' = None \<and>
   getRoomInfo ''r1'' scenario_E =
     (\<lparr>exists = False, participantCount = 0, participants = []\<rparr>, scenario_E) \<and>
   map_of (rooms scenario_B) ''r1'' =
     Some [(''alice'', new_participant ''alice'' 1 None), (''bob'', new_participant ''bob'' 2 None)] \<and>
   getRoomInfo ''r1'' scenario_B =
     (\<lparr>exists = True, participantCount = 2, participants = [''alice'', ''bob'']\<rparr>, scenario_B)"
proof -
  have e: "map_of (rooms scenario_E) ''r1'' = None"
    by (simp add: scenario_E_eq)
  have b: "map_of (rooms scenario_B) ''r1'' =
     Some [(''alice'', new_participant ''alice'' 1 None), (''bob'', new_participant ''bob'' 2 None)]"
    by (simp add: scenario_B_eq)
  from getRoomInfo_answer[of scenario_E "''r1''"] e
  have 1: "getRoomInfo ''r1'' scenario_E =
     (\<lparr>exists = False, participantCount = 0, participants = []\<rparr>, scenario_E)"
    by blast
  from getRoomInfo_answer[of scenario_B "''r1''"] b
  have 2: "getRoomInfo ''r1'' scenario_B =
     (\<lparr>exists = True, participantCount = 2, participants = [''alice'', ''bob'']\<rparr>, scenario_B)"
    by simp
  from e b 1 2 show ?thesis by blast
qed

section \<open>Envelopes with a missing field\<close>

text \<open>
  Claim C5, as the specification words it: a \<^verbatim>\<open>leave-room\<close> envelope without \<^verbatim>\<open>roomId\<close> is
  answered with an error to the sender. It is not: \<^verbatim>\<open>removeUserFromRoom\<close> returns at
  \<^verbatim>\<open>if (!roomId) return;\<close> before anything is sent. Alice (socket 1, open) is alone in r1
  and sends such an envelope: the state, and with it the list of what was sent, is as
  before, and that list holds her \<^verbatim>\<open>joined-room\<close> reply only.
\<close>

theorem leave_without_roomId_counterexample:
  "handleMessage (\<lambda>s. True) 1
     \<lparr>type = ''leave-room'', roomId = None, data = None, userId = Some ''alice''\<rparr> scenario_A
   = scenario_A \<and>
   sent scenario_A = [(1, joined_room ''r1'' 1 [])]"
  by (simp add: handleMessage_def handleLeaveRoom_def removeUserFromRoom_def scenario_A_eq)

text \<open>
  Claim C5, amended. For every \<^verbatim>\<open>leave-room\<close> envelope whose \<^verbatim>\<open>roomId\<close> is absent the
  server sends nothing, to the sender or to anyone else, and changes no room and no
  participant entry.
\<close>

theorem leave_without_roomId_silent:
  assumes "type message = ''leave-room''" and "roomId message = None"
  shows "handleMessage isOpen sock message st = st"
  using assms by (simp add: handleMessage_def handleLeaveRoom_def removeUserFromRoom_def)

theorem leave_without_roomId_silent_witness:
  "type \<lparr>type = ''leave-room'', roomId = None, data = None, userId = Some ''alice''\<rparr>
     = ''leave-room'' \<and>
   roomId \<lparr>type = ''leave-room'', roomId = None, data = None, userId = Some ''alice''\<rparr>
     = None \<and>
   handleMessage (\<lambda>s. True) 1
     \<lparr>type = ''leave-room'', roomId = None, data = None, userId = Some ''alice''\<rparr> scenario_B
   = scenario_B"
  using leave_without_roomId_silent[of
      "\<lparr>type = ''leave-room'', roomId = None, data = None, userId = Some ''alice''\<rparr>"
      "\<lambda>s. True" 1 scenario_B]
  by simp

text \<open>
  Claim C7. For every \<^verbatim>\<open>join-room\<close> envelope in which \<^verbatim>\<open>roomId\<close> or \<^verbatim>\<open>userId\<close> is absent or
  empty, the room table is left as it was (no room is created, no participant inserted)
  and the one thing sent is the error reply to the sender, which \<^verbatim>\<open>sendToUser\<close> hands to
  the sender's socket when that socket is open.
\<close>

theorem join_missing_field:
  assumes "type message = ''join-room''"
    and "roomId message = None \<or> roomId message = Some '''' \<or>
         WebRTCMessage.userId message = None \<or> WebRTCMessage.userId message = Some ''''"
  shows "rooms (handleMessage isOpen sock message st) = rooms st \<and>
         sent (handleMessage isOpen sock message st) =
           sent st @ (if isOpen sock
                      then [(sock, error_msg ''Room ID and User ID are required'')] else [])"
  using assms by (simp add: handleMessage_def handleJoinRoom_error sendError_eq)

text \<open>
  In scenario B a third socket sends a join with an empty \<^verbatim>\<open>userId\<close>, and one without
  \<^verbatim>\<open>roomId\<close>.
\<close>

theorem join_missing_field_witness:
  "rooms (handleMessage (\<lambda>s. True) 3
            \<lparr>type = ''join-room'', roomId = Some ''r1'', data = None, userId = Some ''''\<rparr>
            scenario_B) = rooms scenario_B \<and>
   sent (handleMessage (\<lambda>s. True) 3
            \<lparr>type = ''join-room'', roomId = Some ''r1'', data = None, userId = Some ''''\<rparr>
            scenario_B) =
     sent scenario_B @ [(3, error_msg ''Room ID and User ID are required'')] \<and>
   rooms (handleMessage (\<lambda>s. True) 3
            \<lparr>type = ''join-room'', roomId = None, data = None, userId = Some ''carol''\<rparr>
            scenario_B) = rooms scenario_B \<and>
   sent (handleMessage (\<lambda>s. True) 3
            \<lparr>type = ''join-room'', roomId = None, data = None, userId = Some ''carol''\<rparr>
            scenario_B) =
     sent scenario_B @ [(3, error_msg ''Room ID and User ID are required'')]"
  using join_missing_field[of
      "\<lparr>type = ''join-room'', roomId = Some ''r1'', data = None, userId = Some ''''\<rparr>"
      "\<lambda>s. True" 3 scenario_B]
    join_missing_field[of
      "\<lparr>type = ''join-room'', roomId = None, data = None, userId = Some ''carol''\<rparr>"
      "\<lambda>s. True" 3 scenario_B]
  by simp

section \<open>The life of a room\<close>

text \<open>
  Claim C2. After every sequence of events (envelopes of any type, frames that do not
  parse, closes) from the empty table, a room id is in the table, as \<^verbatim>\<open>getRoomInfo\<close>
  reports it, if and only if its participant count is at least 1, and the table holds
  no room without participants. Each event is one step of \<open>run\<close>, so no state between two
  events shows an empty room: the handler that removes the last participant deletes the
  room before it returns.
\<close>

theorem room_exists_iff_nonempty:
  "(exists (fst (getRoomInfo rid (run evs init))) \<longleftrightarrow>
      1 \<le> participantCount (fst (getRoomInfo rid (run evs init)))) \<and>
   (rid, []) \<notin> set (rooms (run evs init))"
proof -
  have ok: "table_ok (run evs init)"
    by (intro table_ok_run table_ok_init)
  have ne: "(rid, []) \<notin> set (rooms (run evs init))"
    using ok unfolding table_ok_def by blast
  have "exists (fst (getRoomInfo rid (run evs init))) \<longleftrightarrow>
      1 \<le> participantCount (fst (getRoomInfo rid (run evs init)))"
  proof (cases "map_of (rooms (run evs init)) rid")
    case None
    then show ?thesis by (simp add: getRoomInfo_def)
  next
    case (Some room)
    then have "room \<noteq> []"
      using table_ok_room[OF ok] by blast
    with Some show ?thesis by (cases room) (simp_all add: getRoomInfo_def)
  qed
  with ne show ?thesis by blast
qed

text \<open>Scenarios D and E: r1 is there with one participant, then gone.\<close>

theorem room_exists_iff_nonempty_witness:
  "exists (fst (getRoomInfo ''r1'' scenario_D)) \<and>
   participantCount (fst (getRoomInfo ''r1'' scenario_D)) = 1 \<and>
   \<not> exists (fst (getRoomInfo ''r1'' scenario_E)) \<and>
   participantCount (fst (getRoomInfo ''r1'' scenario_E)) = 0 \<and>
   (''r1'', []) \<notin> set (rooms scenario_E)"
  using room_exists_iff_nonempty[of "''r1''"
      "[(\<lambda>s. True, Message 1 (Some (join_room ''r1'' ''alice''))),
        (\<lambda>s. True, Message 2 (Some (join_room ''r1'' ''bob''))),
        (\<lambda>s. s \<noteq> 2, Close 2)]"]
    room_exists_iff_nonempty[of "''r1''"
      "[(\<lambda>s. True, Message 1 (Some (join_room ''r1'' ''alice''))),
        (\<lambda>s. True, Message 2 (Some (join_room ''r1'' ''bob''))),
        (\<lambda>s. s \<noteq> 2, Close 2),
        (\<lambda>s. True, Message 1 (Some (leave_room ''r1'' ''alice'')))]"]
  by (simp add: getRoomInfo_def scenario_D_eq scenario_E_eq)

section \<open>Joining a room\<close>

text \<open>
  Claim C6. A user joins a room whose members other than the joiner are \<open>others\<close>,
  \<open>k\<close> of them. Then what the server sends is, in this order: to each of the \<open>k\<close> others
  whose transport is open, \<^verbatim>\<open>user-joined\<close> with the joiner's \<^verbatim>\<open>userId\<close> and
  \<^verbatim>\<open>participantCount\<close> \<open>k + 1\<close>; and to the joiner \<^verbatim>\<open>joined-room\<close> with \<^verbatim>\<open>participantCount\<close>
  \<open>k + 1\<close> and, as \<^verbatim>\<open>participants\<close>, exactly the user ids of the others. With every
  transport open each of the \<open>k\<close> members gets its \<^verbatim>\<open>user-joined\<close>; with \<open>k = 0\<close> nothing
  is broadcast.
\<close>

theorem join_replies:
  assumes "table_ok st"
    and "type message = ''join-room''"
    and "roomId message = Some rid" and "rid \<noteq> ''''"
    and "WebRTCMessage.userId message = Some uid" and "uid \<noteq> ''''"
  shows
    "(let others = AList.delete uid (room_of rid st); k = length others in
       sent (handleMessage isOpen sock message st) =
         sent st
         @ map (\<lambda>s. (s, user_joined uid (k + 1))) (open_sockets isOpen others)
         @ (if isOpen sock then [(sock, joined_room rid (k + 1) (map fst others))] else []) \<and>
       (isOpen sock \<and> (\<forall>(u, p) \<in> set others. isOpen (socket p)) \<longrightarrow>
          sent (handleMessage isOpen sock message st) =
            sent st
            @ map (\<lambda>s. (s, user_joined uid (k + 1))) (map (\<lambda>(u, p). socket p) others)
            @ [(sock, joined_room rid (k + 1) (map fst others))]) \<and>
       (k = 0 \<longrightarrow>
          sent (handleMessage isOpen sock message st) =
            sent st @ (if isOpen sock then [(sock, joined_room rid 1 [])] else [])))"
proof -
  have "distinct (map fst (room_of rid st))"
    using table_ok_room[OF assms(1)] by (cases "map_of (rooms st) rid") (auto simp: room_of_def)
  then have "length (AList.update uid (new_participant uid sock (data message)) (room_of rid st)) =
             length (AList.delete uid (room_of rid st)) + 1"
    by (simp add: length_update_delete)
  then have main:
    "sent (handleMessage isOpen sock message st) =
       sent st
       @ map (\<lambda>s. (s, user_joined uid (length (AList.delete uid (room_of rid st)) + 1)))
             (open_sockets isOpen (AList.delete uid (room_of rid st)))
       @ (if isOpen sock
          then [(sock, joined_room rid (length (AList.delete uid (room_of rid st)) + 1)
                         (map fst (AList.delete uid (room_of rid st))))]
          else [])"
    using assms by (simp add: handleMessage_def handleJoinRoom_ok)
  show ?thesis
    unfolding Let_def
  proof (intro conjI impI)
    show "sent (handleMessage isOpen sock message st) =
       sent st
       @ map (\<lambda>s. (s, user_joined uid (length (AList.delete uid (room_of rid st)) + 1)))
             (open_sockets isOpen (AList.delete uid (room_of rid st)))
       @ (if isOpen sock
          then [(sock, joined_room rid (length (AList.delete uid (room_of rid st)) + 1)
                         (map fst (AList.delete uid (room_of rid st))))]
          else [])"
      by (rule main)
  next
    assume "isOpen sock \<and> (\<forall>(u, p) \<in> set (AList.delete uid (room_of rid st)). isOpen (socket p))"
    then show "sent (handleMessage isOpen sock message st) =
       sent st
       @ map (\<lambda>s. (s, user_joined uid (length (AList.delete uid (room_of rid st)) + 1)))
             (map (\<lambda>(u, p). socket p) (AList.delete uid (room_of rid st)))
       @ [(sock, joined_room rid (length (AList.delete uid (room_of rid st)) + 1)
                         (map fst (AList.delete uid (room_of rid st))))]"
      using main by (simp add: open_sockets_all)
  next
    assume "length (AList.delete uid (room_of rid st)) = 0"
    then show "sent (handleMessage isOpen sock message st) =
       sent st @ (if isOpen sock then [(sock, joined_room rid 1 [])] else [])"
      using main by (simp add: open_sockets_def)
  qed
qed

text \<open>
  Scenario A (alice joins the empty room) and scenario B (bob joins alice), all
  transports open.
\<close>

theorem join_replies_witness:
  "table_ok init \<and> table_ok scenario_A \<and>
   sent (handleMessage (\<lambda>s. True) 1 (join_room ''r1'' ''alice'') init) =
     [(1, joined_room ''r1'' 1 [])] \<and>
   sent (handleMessage (\<lambda>s. True) 2 (join_room ''r1'' ''bob'') scenario_A) =
     sent scenario_A @ [(1, user_joined ''bob'' 2), (2, joined_room ''r1'' 2 [''alice''])]"
  using join_replies[OF table_ok_init, of "join_room ''r1'' ''alice''" "''r1''" "''alice''"
      "\<lambda>s. True" 1]
    join_replies[OF table_ok_scenario_A, of "join_room ''r1'' ''bob''" "''r1''" "''bob''"
      "\<lambda>s. True" 2]
    table_ok_init table_ok_scenario_A
  by (simp add: join_room_def room_of_def init_def scenario_A_eq open_sockets_def
      new_participant_def Let_def user_joined_def joined_room_def)

text \<open>
  Claim C8, as the specification words it: when a user id that is in a room joins it
  again, the earlier connection retains no room record. Three runs where it keeps one.
  Alice, alone in r1 on socket 1, sends her join again on the same socket: the earlier
  connection is the joining one and holds the record. Socket 1 is alice in r1 and in r2,
  and socket 2 joins r1 as alice: the entry of r1 now holds socket 2, and socket 1 still
  holds its record in r2. Socket 1 is a and b in room r, and socket 2 joins r as a:
  socket 1 still holds its record as b in that room.
\<close>

theorem rejoin_counterexample:
  "map_of (room_of ''r1'' scenario_A) ''alice'' = Some (new_participant ''alice'' 1 None) \<and>
   memberships 1 (handleMessage (\<lambda>s. True) 1 (join_room ''r1'' ''alice'') scenario_A) =
     [(''r1'', ''alice'')] \<and>
   map_of (room_of ''r1'' two_rooms_one_socket) ''alice'' = Some (new_participant ''alice'' 1 None) \<and>
   map_of (room_of ''r1''
             (handleMessage (\<lambda>s. True) 2 (join_room ''r1'' ''alice'') two_rooms_one_socket))
          ''alice'' = Some (new_participant ''alice'' 2 None) \<and>
   memberships 1 (handleMessage (\<lambda>s. True) 2 (join_room ''r1'' ''alice'') two_rooms_one_socket) =
     [(''r2'', ''alice'')] \<and>
   map_of (room_of ''r'' two_ids_one_socket) ''a'' = Some (new_participant ''a'' 1 None) \<and>
   map_of (room_of ''r'' (handleMessage (\<lambda>s. True) 2 (join_room ''r'' ''a'') two_ids_one_socket))
          ''a'' = Some (new_participant ''a'' 2 None) \<and>
   memberships 1 (handleMessage (\<lambda>s. True) 2 (join_room ''r'' ''a'') two_ids_one_socket) =
     [(''r'', ''b'')]"
  by (simp add: scenario_A_eq two_rooms_one_socket_eq two_ids_one_socket_eq handler_defs
      new_participant_def room_of_def memberships_def)

text \<open>
  Claim C8, amended. When a user id that is already a member of a room joins the same
  room again, the new entry overwrites the earlier one in place (last writer wins): the
  room keeps its keys and their order, its participant count is unchanged, and the
  entry of that user id holds the joining connection. Every other entry of the table
  stays as it was: a connection other than the joining one holds afterwards the records
  it held before except that one. So the earlier connection, when it is not the joining
  one and held no other record, retains no room record, and the reverse lookup of it
  yields the empty string.
\<close>

theorem rejoin_overwrites:
  assumes "table_ok st" and "map_of (rooms st) rid = Some room"
    and "map_of room uid = Some p0"
    and "type message = ''join-room''"
    and "roomId message = Some rid" and "WebRTCMessage.userId message = Some uid"
  shows
    "(let st' = handleMessage isOpen sock message st;
          newp = new_participant uid sock (data message)
      in rooms st' = AList.update rid (AList.update uid newp room) (rooms st) \<and>
         map fst (room_of rid st') = map fst room \<and>
         length (room_of rid st') = length room \<and>
         map_of (room_of rid st') uid = Some newp \<and>
         socket newp = sock \<and>
         (\<forall>s. s \<noteq> sock \<longrightarrow> set (memberships s st') = set (memberships s st) - {(rid, uid)}) \<and>
         (socket p0 \<noteq> sock \<and> memberships (socket p0) st = [(rid, uid)] \<longrightarrow>
            memberships (socket p0) st' = [] \<and> getUserIdBySocket (socket p0) st' = ''''))"
proof -
  let ?newp = "new_participant uid sock (data message)"
  let ?room' = "AList.update uid ?newp room"
  let ?st' = "handleMessage isOpen sock message st"
  have rid: "rid \<noteq> ''''" by (rule table_ok_rid[OF assms(1,2)])
  have "(uid, p0) \<in> set room"
    using assms(3) by (rule map_of_SomeD)
  then have uid: "uid \<noteq> ''''"
    using table_ok_room[OF assms(1,2)] by blast
  have ro: "room_of rid st = room"
    using assms(2) by (simp add: room_of_def)
  have st': "?st' = st\<lparr>rooms := AList.update rid ?room' (rooms st), sent := sent ?st'\<rparr>"
    using assms(4,5,6) rid uid ro by (simp add: handleMessage_def handleJoinRoom_ok)
  then have c1: "rooms ?st' = AList.update rid ?room' (rooms st)"
    by (metis WebRTCSignalingServer.select_convs(1) WebRTCSignalingServer.surjective
        WebRTCSignalingServer.update_convs(1) WebRTCSignalingServer.update_convs(2))
  then have ro': "room_of rid ?st' = ?room'"
    by (simp add: room_of_def AList.update_conv')
  have c2: "map fst (room_of rid ?st') = map fst room"
    using assms(3) by (simp add: ro' keys_update_present)
  have c3: "length (room_of rid ?st') = length room"
    using assms(3) by (simp add: ro' length_update_present)
  have c4: "map_of (room_of rid ?st') uid = Some ?newp"
    by (simp add: ro' AList.update_conv')
  have c5: "socket ?newp = sock"
    by (simp add: new_participant_def)
  have c6: "set (memberships s ?st') = set (memberships s st) - {(rid, uid)}" if "s \<noteq> sock" for s
  proof -
    have "socket ?newp \<noteq> s" using that c5 by simp
    from memberships_after_overwrite[OF assms(1,2) this, where uid = uid and x = "sent ?st'"] st'
    show ?thesis by simp
  qed
  have c7: "memberships (socket p0) ?st' = [] \<and> getUserIdBySocket (socket p0) ?st' = ''''"
    if "socket p0 \<noteq> sock \<and> memberships (socket p0) st = [(rid, uid)]"
  proof -
    from that c6[of "socket p0"] have "set (memberships (socket p0) ?st') = {}" by simp
    then have "memberships (socket p0) ?st' = []" by simp
    then show ?thesis by (simp add: getUserIdBySocket_memberships)
  qed
  from c1 c2 c3 c4 c5 c6 c7 show ?thesis
    unfolding Let_def by blast
qed

text \<open>In scenario B a third socket joins r1 as alice.\<close>

theorem rejoin_overwrites_witness:
  "table_ok scenario_B \<and>
   map_of (room_of ''r1'' scenario_B) ''alice'' = Some (new_participant ''alice'' 1 None) \<and>
   memberships 1 scenario_B = [(''r1'', ''alice'')] \<and>
   rooms (handleMessage (\<lambda>s. True) 3 (join_room ''r1'' ''alice'') scenario_B) =
     [(''r1'', [(''alice'', new_participant ''alice'' 3 None),
                (''bob'', new_participant ''bob'' 2 None)])] \<and>
   length (room_of ''r1'' (handleMessage (\<lambda>s. True) 3 (join_room ''r1'' ''alice'') scenario_B)) = 2 \<and>
   memberships 1 (handleMessage (\<lambda>s. True) 3 (join_room ''r1'' ''alice'') scenario_B) = [] \<and>
   getUserIdBySocket 1 (handleMessage (\<lambda>s. True) 3 (join_room ''r1'' ''alice'') scenario_B) = ''''"
proof -
  have r: "map_of (rooms scenario_B) ''r1'' =
     Some [(''alice'', new_participant ''alice'' 1 None), (''bob'', new_participant ''bob'' 2 None)]"
    by (simp add: scenario_B_eq)
  have a: "map_of [(''alice'', new_participant ''alice'' 1 None),
                   (''bob'', new_participant ''bob'' 2 None)] ''alice'' =
             Some (new_participant ''alice'' 1 None)"
    by simp
  have a': "map_of (room_of ''r1'' scenario_B) ''alice'' = Some (new_participant ''alice'' 1 None)"
    by (simp add: scenario_B_eq room_of_def)
  have t: "type (join_room ''r1'' ''alice'') = ''join-room''"
    and i: "roomId (join_room ''r1'' ''alice'') = Some ''r1''"
    and u: "WebRTCMessage.userId (join_room ''r1'' ''alice'') = Some ''alice''"
    by (simp_all add: join_room_def)
  from rejoin_overwrites[OF table_ok_scenario_B r a t i u, where isOpen = "\<lambda>s. True" and sock = 3]
    memberships_alice_B
  have "rooms (handleMessage (\<lambda>s. True) 3 (join_room ''r1'' ''alice'') scenario_B) =
     [(''r1'', [(''alice'', new_participant ''alice'' 3 None),
                (''bob'', new_participant ''bob'' 2 None)])] \<and>
   length (room_of ''r1'' (handleMessage (\<lambda>s. True) 3 (join_room ''r1'' ''alice'') scenario_B)) = 2 \<and>
   memberships 1 (handleMessage (\<lambda>s. True) 3 (join_room ''r1'' ''alice'') scenario_B) = [] \<and>
   getUserIdBySocket 1 (handleMessage (\<lambda>s. True) 3 (join_room ''r1'' ''alice'') scenario_B) = ''''"
    by (simp add: Let_def scenario_B_eq new_participant_def join_room_def)
  with table_ok_scenario_B a' memberships_alice_B show ?thesis by blast
qed

section \<open>Leaving and closing\<close>

text \<open>
  Claim C1, as the specification words it: a \<^verbatim>\<open>leave-room\<close> for a participant already
  removed produces no broadcast. In scenario B bob has left (alice was told so) and his
  socket sends the same \<^verbatim>\<open>leave-room\<close> once more: r1 still exists, \<^verbatim>\<open>room.delete\<close> finds
  nothing, and \<^verbatim>\<open>user-left\<close> for bob goes to alice a second time.
\<close>

theorem stray_leave_counterexample:
  "rooms bob_has_left = [(''r1'', [(''alice'', new_participant ''alice'' 1 None)])] \<and>
   sent (handleMessage (\<lambda>s. True) 2 (leave_room ''r1'' ''bob'') bob_has_left) =
     sent bob_has_left @ [(1, user_left ''bob'' 1)]"
  by (simp add: bob_has_left_eq handler_defs new_participant_def user_left_def)

text \<open>
  Claim C1, amended. In every table the server can reach, take a \<^verbatim>\<open>leave-room\<close> envelope
  whose user id (the one it names or, when it names none, the one the reverse lookup of
  the sending socket yields) is not in the named room. It leaves the room table unchanged
  and is answered with no error: what is sent is \<^verbatim>\<open>user-left\<close> with that user id and the
  size of the room as \<^verbatim>\<open>participantCount\<close>, to every member of the named room whose
  transport is open, and so nothing at all when the table has no such room. A close
  event for a socket that no entry of the table holds changes nothing and sends nothing.
\<close>

theorem stray_leave:
  assumes "table_ok st"
    and "type message = ''leave-room''"
    and "roomId message = Some rid"
    and "(WebRTCMessage.userId message = Some uid \<and> uid \<noteq> '''') \<or>
         ((WebRTCMessage.userId message = None \<or> WebRTCMessage.userId message = Some '''') \<and>
          uid = getUserIdBySocket sock st)"
    and "uid \<notin> fst ` set (room_of rid st)"
  shows "rooms (handleMessage isOpen sock message st) = rooms st \<and>
         sent (handleMessage isOpen sock message st) =
           sent st @ map (\<lambda>s. (s, user_left uid (length (room_of rid st))))
                         (open_sockets isOpen (room_of rid st)) \<and>
         (map_of (rooms st) rid = None \<longrightarrow> handleMessage isOpen sock message st = st) \<and>
         (memberships closed st = [] \<longrightarrow> handleDisconnection isOpen' closed st = st)"
proof -
  have eq: "handleMessage isOpen sock message st = removeUserFromRoom isOpen (Some rid) uid sock st"
    using assms(2,3,4) by (auto simp: handleMessage_def handleLeaveRoom_def)
  show ?thesis
  proof (cases "map_of (rooms st) rid")
    case None
    then have "removeUserFromRoom isOpen (Some rid) uid sock st = st"
      by (simp add: removeUserFromRoom_noop)
    with None eq show ?thesis
      by (simp add: room_of_def open_sockets_def handleDisconnection_none)
  next
    case (Some room)
    have rid: "rid \<noteq> ''''" by (rule table_ok_rid[OF assms(1) Some])
    have ne: "room \<noteq> []" using table_ok_room[OF assms(1) Some] by blast
    have del: "AList.delete uid room = room"
      using assms(5) Some by (simp add: room_of_def)
    have "AList.update rid room (rooms st) = rooms st"
      using Some by (rule AList.update_triv)
    with Some rid ne del eq show ?thesis
      by (simp add: removeUserFromRoom_Some room_of_def handleDisconnection_none)
  qed
qed

text \<open>
  After bob has left: his second \<^verbatim>\<open>leave-room\<close> for r1, one that names no user, one for a
  room that does not exist, and the close of his socket.
\<close>

theorem stray_leave_witness:
  "table_ok bob_has_left \<and> ''bob'' \<notin> fst ` set (room_of ''r1'' bob_has_left) \<and>
   rooms (handleMessage (\<lambda>s. True) 2 (leave_room ''r1'' ''bob'') bob_has_left) = rooms bob_has_left \<and>
   sent (handleMessage (\<lambda>s. True) 2 (leave_room ''r1'' ''bob'') bob_has_left) =
     sent bob_has_left @ [(1, user_left ''bob'' 1)] \<and>
   sent (handleMessage (\<lambda>s. True) 2
           \<lparr>type = ''leave-room'', roomId = Some ''r1'', data = None, userId = None\<rparr>
           bob_has_left) =
     sent bob_has_left @ [(1, user_left '''' 1)] \<and>
   map_of (rooms bob_has_left) ''r9'' = None \<and>
   handleMessage (\<lambda>s. True) 2 (leave_room ''r9'' ''bob'') bob_has_left = bob_has_left \<and>
   memberships 2 bob_has_left = [] \<and>
   handleDisconnection (\<lambda>s. s \<noteq> 2) 2 bob_has_left = bob_has_left"
proof -
  have m: "''bob'' \<notin> fst ` set (room_of ''r1'' bob_has_left)"
    by (simp add: bob_has_left_eq room_of_def)
  have m9: "''bob'' \<notin> fst ` set (room_of ''r9'' bob_has_left)"
    by (simp add: bob_has_left_eq room_of_def)
  have n: "map_of (rooms bob_has_left) ''r9'' = None"
    by (simp add: bob_has_left_eq)
  have c: "memberships 2 bob_has_left = []"
    by (simp add: bob_has_left_eq memberships_def new_participant_def)
  from stray_leave[OF table_ok_bob_has_left, where message = "leave_room ''r1'' ''bob''"
      and rid = "''r1''" and uid = "''bob''" and isOpen = "\<lambda>s. True" and sock = 2
      and closed = 2 and isOpen' = "\<lambda>s. s \<noteq> 2"] m c
  have 1: "rooms (handleMessage (\<lambda>s. True) 2 (leave_room ''r1'' ''bob'') bob_has_left)
             = rooms bob_has_left"
    and 2: "sent (handleMessage (\<lambda>s. True) 2 (leave_room ''r1'' ''bob'') bob_has_left) =
             sent bob_has_left @ [(1, user_left ''bob'' 1)]"
    and 3: "handleDisconnection (\<lambda>s. s \<noteq> 2) 2 bob_has_left = bob_has_left"
    by (simp_all add: leave_room_def room_of_def bob_has_left_eq open_sockets_def
        new_participant_def)
  from stray_leave[OF table_ok_bob_has_left, where message = "leave_room ''r9'' ''bob''"
      and rid = "''r9''" and uid = "''bob''" and isOpen = "\<lambda>s. True" and sock = 2] m9 n
  have 4: "handleMessage (\<lambda>s. True) 2 (leave_room ''r9'' ''bob'') bob_has_left = bob_has_left"
    by (simp add: leave_room_def)
  have g: "getUserIdBySocket 2 bob_has_left = ''''"
    unfolding getUserIdBySocket_memberships c by simp
  have e: "'''' \<notin> fst ` set (room_of ''r1'' bob_has_left)"
    by (simp add: bob_has_left_eq room_of_def)
  from stray_leave[OF table_ok_bob_has_left, where rid = "''r1''" and uid = "''''"
      and message = "\<lparr>type = ''leave-room'', roomId = Some ''r1'', data = None, userId = None\<rparr>"
      and isOpen = "\<lambda>s. True" and sock = 2] g e
  have 5: "sent (handleMessage (\<lambda>s. True) 2
           \<lparr>type = ''leave-room'', roomId = Some ''r1'', data = None, userId = None\<rparr>
           bob_has_left) =
     sent bob_has_left @ [(1, user_left '''' 1)]"
    by (simp add: room_of_def bob_has_left_eq open_sockets_def new_participant_def)
  from table_ok_bob_has_left m 1 2 5 n 4 c 3 show ?thesis by blast
qed

text \<open>
  Claim C3, as the specification words it: for every participant P of a room, P's
  \<^verbatim>\<open>leave-room\<close> and the close of P's transport have the same effect on the room. Socket 1
  has joined room r as a and then as b. For participant b, who has one other member
  beside it, \<^verbatim>\<open>leave-room\<close> removes b and tells a so. The close of b's transport removes a:
  the loop of \<^verbatim>\<open>handleDisconnection\<close> stops at the first entry of r that holds the socket.
  Entry b stays, and the \<^verbatim>\<open>user-left\<close> for a, addressed to b's closed socket, is dropped.
\<close>

theorem leave_equals_close_counterexample:
  "map_of (rooms two_ids_one_socket) ''r'' =
     Some [(''a'', new_participant ''a'' 1 None), (''b'', new_participant ''b'' 1 None)] \<and>
   rooms (handleMessage (\<lambda>s. True) 1 (leave_room ''r'' ''b'') two_ids_one_socket) =
     [(''r'', [(''a'', new_participant ''a'' 1 None)])] \<and>
   sent (handleMessage (\<lambda>s. True) 1 (leave_room ''r'' ''b'') two_ids_one_socket) =
     sent two_ids_one_socket @ [(1, user_left ''b'' 1)] \<and>
   rooms (handleDisconnection (\<lambda>s. s \<noteq> 1) 1 two_ids_one_socket) =
     [(''r'', [(''b'', new_participant ''b'' 1 None)])] \<and>
   sent (handleDisconnection (\<lambda>s. s \<noteq> 1) 1 two_ids_one_socket) = sent two_ids_one_socket"
  by (simp add: two_ids_one_socket_eq handler_defs new_participant_def user_left_def)

text \<open>
  Claim C3, amended. Let P be the entry of room R that holds a socket, and let no other
  entry of R hold it; let R have N members beside P. A \<^verbatim>\<open>leave-room\<close> envelope from that
  socket that names R and P (or names R and no user, where the reverse lookup of the
  socket yields P), and the close event of the socket, have the same effect on R: the
  same \<^verbatim>\<open>user-left\<close> with P's user id and \<^verbatim>\<open>participantCount\<close> N goes to every other member
  of R whose transport is open, and R is deleted exactly when N = 0 and is otherwise left
  with the other members. The close also removes the socket from the other rooms it is
  in (the messages \<open>pre\<close> and \<open>post\<close>); when the socket holds no record but P in R, the two
  events end in the same state.
\<close>

theorem leave_equals_close:
  assumes "table_ok st" and "map_of (rooms st) R = Some room"
    and "find_socket sock room = Some P"
    and "find_socket sock (AList.delete P room) = None"
    and "type message = ''leave-room''" and "roomId message = Some R"
    and "WebRTCMessage.userId message = Some P \<or>
         (WebRTCMessage.userId message = None \<and> getUserIdBySocket sock st = P)"
    and "\<forall>s. s \<noteq> sock \<longrightarrow> isOpen' s = isOpen s"
  shows
    "(let others = AList.delete P room;
          N = length others;
          notice = map (\<lambda>s. (s, user_left P N)) (open_sockets isOpen others);
          left = handleMessage isOpen sock message st;
          closed = handleDisconnection isOpen' sock st
      in sent left = sent st @ notice \<and>
         (\<exists>pre post. sent closed = sent st @ pre @ notice @ post) \<and>
         map_of (rooms left) R = (if N = 0 then None else Some others) \<and>
         map_of (rooms closed) R = (if N = 0 then None else Some others) \<and>
         (memberships sock st = [(R, P)] \<longrightarrow> closed = left))"
proof -
  let ?others = "AList.delete P room"
  let ?notice = "map (\<lambda>s. (s, user_left P (length ?others))) (open_sockets isOpen ?others)"
  have R: "R \<noteq> ''''" by (rule table_ok_rid[OF assms(1,2)])
  obtain p where "(P, p) \<in> set room"
    using find_socket_Some_key[OF assms(3)] by blast
  then have P: "P \<noteq> ''''"
    using table_ok_room[OF assms(1,2)] by blast
  have left: "handleMessage isOpen sock message st = removeUserFromRoom isOpen (Some R) P sock st"
    using assms(5,6,7) P by (auto simp: handleMessage_def handleLeaveRoom_def)
  have left_eq: "handleMessage isOpen sock message st =
      st\<lparr>rooms := (if ?others = [] then AList.delete R (rooms st)
                   else AList.update R ?others (rooms st)),
         sent := sent st @ ?notice\<rparr>"
    unfolding left by (rule removeUserFromRoom_Some[OF R assms(2)])
  have "\<forall>(u, q) \<in> set ?others. socket q \<noteq> sock"
    using assms(4) by (simp add: find_socket_None)
  with assms(8) have "\<forall>(u, q) \<in> set ?others. isOpen' (socket q) = isOpen (socket q)"
    by blast
  then have same: "open_sockets isOpen' ?others = open_sockets isOpen ?others"
    by (rule open_sockets_cong)
  have c1: "sent (handleMessage isOpen sock message st) = sent st @ ?notice"
    by (simp add: left_eq)
  have c2: "\<exists>pre post. sent (handleDisconnection isOpen' sock st) = sent st @ pre @ ?notice @ post"
    using handleDisconnection_on_room(2)[OF assms(1,2,3), of isOpen'] same by simp
  have c3: "map_of (rooms (handleMessage isOpen sock message st)) R =
              (if length ?others = 0 then None else Some ?others)"
    by (simp add: left_eq AList.delete_conv' AList.update_conv')
  have c4: "map_of (rooms (handleDisconnection isOpen' sock st)) R =
              (if length ?others = 0 then None else Some ?others)"
    using handleDisconnection_on_room(1)[OF assms(1,2,3), of isOpen'] by simp
  have c5: "handleDisconnection isOpen' sock st = handleMessage isOpen sock message st"
    if "memberships sock st = [(R, P)]"
  proof -
    have "handleDisconnection isOpen' sock st = removeUserFromRoom isOpen' (Some R) P sock st"
      using that by (rule handleDisconnection_single)
    also have "\<dots> = st\<lparr>rooms := (if ?others = [] then AList.delete R (rooms st)
                                 else AList.update R ?others (rooms st)),
                       sent := sent st @ map (\<lambda>s. (s, user_left P (length ?others)))
                                             (open_sockets isOpen' ?others)\<rparr>"
      by (rule removeUserFromRoom_Some[OF R assms(2)])
    finally show ?thesis by (simp add: same left_eq)
  qed
  from c1 c2 c3 c4 c5 show ?thesis
    unfolding Let_def by blast
qed

text \<open>Scenario D: bob's transport drops in scenario B, or bob sends \<^verbatim>\<open>leave-room\<close>.\<close>

theorem leave_equals_close_witness:
  "table_ok scenario_B \<and>
   find_socket 2 [(''alice'', new_participant ''alice'' 1 None),
                  (''bob'', new_participant ''bob'' 2 None)] = Some ''bob'' \<and>
   memberships 2 scenario_B = [(''r1'', ''bob'')] \<and>
   sent (handleMessage (\<lambda>s. True) 2 (leave_room ''r1'' ''bob'') scenario_B) =
     sent scenario_B @ [(1, user_left ''bob'' 1)] \<and>
   map_of (rooms (handleMessage (\<lambda>s. True) 2 (leave_room ''r1'' ''bob'') scenario_B)) ''r1'' =
     Some [(''alice'', new_participant ''alice'' 1 None)] \<and>
   handleDisconnection (\<lambda>s. s \<noteq> 2) 2 scenario_B =
     handleMessage (\<lambda>s. True) 2 (leave_room ''r1'' ''bob'') scenario_B"
proof -
  have r: "map_of (rooms scenario_B) ''r1'' =
     Some [(''alice'', new_participant ''alice'' 1 None), (''bob'', new_participant ''bob'' 2 None)]"
    by (simp add: scenario_B_eq)
  have f: "find_socket 2 [(''alice'', new_participant ''alice'' 1 None),
                          (''bob'', new_participant ''bob'' 2 None)] = Some ''bob''"
    by (simp add: new_participant_def)
  have g: "find_socket 2 (AList.delete ''bob'' [(''alice'', new_participant ''alice'' 1 None),
                          (''bob'', new_participant ''bob'' 2 None)]) = None"
    by (simp add: new_participant_def)
  have t: "type (leave_room ''r1'' ''bob'') = ''leave-room''"
    and i: "roomId (leave_room ''r1'' ''bob'') = Some ''r1''"
    and u: "WebRTCMessage.userId (leave_room ''r1'' ''bob'') = Some ''bob'' \<or>
         (WebRTCMessage.userId (leave_room ''r1'' ''bob'') = None \<and>
          getUserIdBySocket 2 scenario_B = ''bob'')"
    by (simp_all add: leave_room_def)
  have o: "\<forall>s. s \<noteq> 2 \<longrightarrow> (s \<noteq> 2) = True"
    by simp
  from leave_equals_close[OF table_ok_scenario_B r f g t i u,
      where isOpen' = "\<lambda>s. s \<noteq> 2" and isOpen = "\<lambda>s. True", OF o] memberships_scenario_B
  have "sent (handleMessage (\<lambda>s. True) 2 (leave_room ''r1'' ''bob'') scenario_B) =
     sent scenario_B @ [(1, user_left ''bob'' 1)] \<and>
   map_of (rooms (handleMessage (\<lambda>s. True) 2 (leave_room ''r1'' ''bob'') scenario_B)) ''r1'' =
     Some [(''alice'', new_participant ''alice'' 1 None)] \<and>
   handleDisconnection (\<lambda>s. s \<noteq> 2) 2 scenario_B =
     handleMessage (\<lambda>s. True) 2 (leave_room ''r1'' ''bob'') scenario_B"
    by (simp add: Let_def open_sockets_def new_participant_def)
  with table_ok_scenario_B f memberships_scenario_B show ?thesis by blast
qed

section \<open>Relaying\<close>



text \<open>
  Claim C10. In a table the server can reach, let an \<^verbatim>\<open>offer\<close>, \<^verbatim>\<open>answer\<close> or \<^verbatim>\<open>ice-candidate\<close>
  envelope that names an existing room arrive from a socket that holds no record. The
  reverse lookup of the socket yields the empty string; no member of the room has the
  empty string as its user id (a join with an empty user id is refused), so the
  exclusion list matches no member; and the envelope is relayed to every member of the
  room whose transport is open.
\<close>

theorem relay_from_nonmember:
  assumes "table_ok st"
    and "memberships sock st = []"
    and "map_of (rooms st) rid = Some room"
    and "type message = ''offer'' \<or> type message = ''answer'' \<or> type message = ''ice-candidate''"
    and "roomId message = Some rid"
  shows "getUserIdBySocket sock st = '''' \<and>
         '''' \<notin> fst ` set room \<and>
         handleMessage isOpen sock message st =
           st\<lparr>sent := sent st @ map (\<lambda>s. (s, relayed (type message) (data message)))
                                    (open_sockets isOpen room)\<rparr>"
proof -
  have g: "getUserIdBySocket sock st = ''''"
    using assms(2) by (simp add: getUserIdBySocket_memberships)
  have k: "'''' \<notin> fst ` set room"
    by (rule table_ok_no_empty_key[OF assms(1,3)])
  then have d: "AList.delete '''' room = room" by simp
  have rid: "rid \<noteq> ''''" by (rule table_ok_rid[OF assms(1,3)])
  have "relay ty isOpen sock message st =
          st\<lparr>sent := sent st @ map (\<lambda>s. (s, relayed ty (data message)))
                                    (open_sockets isOpen room)\<rparr>" for ty
    using assms(3,5) rid g d by (simp add: relay_def broadcastToRoom_Some relayed_def)
  with assms(4) g k show ?thesis
    by (auto simp: handleMessage_def handleOffer_def handleAnswer_def handleIceCandidate_def)
qed

text \<open>In scenario B a third socket, in no room, sends an offer to r1.\<close>

theorem relay_from_nonmember_witness:
  "table_ok scenario_B \<and> memberships 3 scenario_B = [] \<and>
   getUserIdBySocket 3 scenario_B = '''' \<and>
   handleMessage (\<lambda>s. True) 3 (offer ''r1'' (JStr ''sdp'')) scenario_B =
     scenario_B\<lparr>sent := sent scenario_B @
       [(1, relayed ''offer'' (Some (JStr ''sdp''))), (2, relayed ''offer'' (Some (JStr ''sdp'')))]\<rparr>"
proof -
  have m: "memberships 3 scenario_B = []"
    by (simp add: scenario_B_eq memberships_def new_participant_def)
  have r: "map_of (rooms scenario_B) ''r1'' =
     Some [(''alice'', new_participant ''alice'' 1 None), (''bob'', new_participant ''bob'' 2 None)]"
    by (simp add: scenario_B_eq)
  from relay_from_nonmember[OF table_ok_scenario_B m r, of "offer ''r1'' (JStr ''sdp'')" "\<lambda>s. True"]
  have "getUserIdBySocket 3 scenario_B = '''' \<and>
   handleMessage (\<lambda>s. True) 3 (offer ''r1'' (JStr ''sdp'')) scenario_B =
     scenario_B\<lparr>sent := sent scenario_B @
       [(1, relayed ''offer'' (Some (JStr ''sdp''))), (2, relayed ''offer'' (Some (JStr ''sdp'')))]\<rparr>"
    by (simp add: offer_def open_sockets_def new_participant_def)
  with table_ok_scenario_B m show ?thesis by blast
qed

end
